theory Spec2Isabelle
  imports Main "HOL-Library.Word" "HOL-Library.Sublist"
begin

unbundle bit_operations_syntax

section \<open>ReportDescriptor.h: the report descriptor model\<close>

type_synonym uint8_t = "8 word"
type_synonym uint16_t = "16 word"
type_synonym uint32_t = "32 word"

text \<open>\<^verbatim>\<open>ReportID::Type\<close>, with the enumerators' values Input = 8, Output = 9, Feature = 11.\<close>

datatype ReportID_Type = Input | Output | Feature

fun ReportID_Type_value :: "ReportID_Type \<Rightarrow> nat" where
  "ReportID_Type_value Input = 8"
| "ReportID_Type_value Output = 9"
| "ReportID_Type_value Feature = 11"

text \<open>\<^verbatim>\<open>struct ReportID\<close>; its members \<^verbatim>\<open>type\<close> and \<^verbatim>\<open>id\<close> are primed here.\<close>

record ReportID =
  type' :: ReportID_Type
  id' :: uint32_t

text \<open>\<^verbatim>\<open>operator<\<close>: the lexicographic order of \<^verbatim>\<open>std::make_tuple (type, id)\<close>.\<close>

definition ReportID_less :: "ReportID \<Rightarrow> ReportID \<Rightarrow> bool" where
  "ReportID_less a b =
     (ReportID_Type_value (type' a) < ReportID_Type_value (type' b)
      \<or> (ReportID_Type_value (type' a) = ReportID_Type_value (type' b) \<and> id' a < id' b))"

text \<open>\<^verbatim>\<open>ReportField::Flags\<close>: \<^verbatim>\<open>unsigned int bits\<close> and the enumerators of \<^verbatim>\<open>Bits\<close>.\<close>

record Flags =
  bits :: uint32_t

definition Data_Constant :: uint32_t where "Data_Constant = push_bit 0 1"
definition Array_Variable :: uint32_t where "Array_Variable = push_bit 1 1"
definition Absolute_Relative :: uint32_t where "Absolute_Relative = push_bit 2 1"
definition NoWrap_Wrap :: uint32_t where "NoWrap_Wrap = push_bit 3 1"
definition Linear_NonLinear :: uint32_t where "Linear_NonLinear = push_bit 4 1"
definition PreferredState_NoPreferred :: uint32_t where "PreferredState_NoPreferred = push_bit 5 1"
definition NoNullPosition_NullState :: uint32_t where "NoNullPosition_NullState = push_bit 6 1"
definition NonVolatile_Volatile :: uint32_t where "NonVolatile_Volatile = push_bit 7 1"
definition BitField_BufferedBytes :: uint32_t where "BitField_BufferedBytes = push_bit 8 1"

text \<open>
  The four projections. \<^verbatim>\<open>!(bits & m)\<close> is true when the masked value is zero, and the
  conversion of \<^verbatim>\<open>bits & m\<close> to \<^verbatim>\<open>bool\<close> is true when it is not zero.
\<close>

definition isData :: "Flags \<Rightarrow> bool" where
  "isData f = (bits f AND Data_Constant = 0)"

definition isConstant :: "Flags \<Rightarrow> bool" where
  "isConstant f = (bits f AND Data_Constant \<noteq> 0)"

definition isArray :: "Flags \<Rightarrow> bool" where
  "isArray f = (bits f AND Array_Variable = 0)"

definition isVariable :: "Flags \<Rightarrow> bool" where
  "isVariable f = (bits f AND Array_Variable \<noteq> 0)"


text \<open>
  \<^verbatim>\<open>ReportField::usages\<close> is a \<^verbatim>\<open>std::variant\<close> of a usage list and a usage range.
\<close>

datatype usages_variant = UsageList "uint32_t list" | UsageRange uint32_t uint32_t

record ReportField =
  flags :: Flags
  usages :: usages_variant

datatype ReportCollection_Type =
  Physical | Application | Logical | Report | NamedArray | UsageSwitch | UsageModifier

text \<open>
  \<^verbatim>\<open>ReportCollection::reports\<close> is a \<^verbatim>\<open>std::map<ReportID, std::vector<ReportField>>\<close>:
  here the list of its entries in key order, as an iteration over the map visits them.
\<close>

type_synonym reports_map = "(ReportID \<times> ReportField list) list"

record ReportCollection =
  ctype :: ReportCollection_Type
  usage :: uint32_t
  reports :: reports_map

record ReportDescriptor =
  collections :: "ReportCollection list"

section \<open>RawDevice_windows.cpp: what the program sees of Windows\<close>

type_synonym HANDLE = "64 word"
type_synonym DWORD = "32 word"
type_synonym USHORT = "16 word"
type_synonym UCHAR = "8 word"
type_synonym DEVINST = "32 word"

text \<open>
  Constants of the Windows SDK headers (\<^verbatim>\<open>handleapi.h\<close>, \<^verbatim>\<open>winbase.h\<close>, \<^verbatim>\<open>winerror.h\<close>),
  with the values the SDK gives them. They are not part of the repository.
\<close>

definition INVALID_HANDLE_VALUE :: HANDLE where "INVALID_HANDLE_VALUE = - 1"
definition WAIT_OBJECT_0 :: DWORD where "WAIT_OBJECT_0 = 0"
definition WAIT_TIMEOUT :: DWORD where "WAIT_TIMEOUT = 258"
definition WAIT_FAILED :: DWORD where "WAIT_FAILED = - 1"
definition INFINITE :: DWORD where "INFINITE = - 1"
definition ERROR_IO_PENDING :: DWORD where "ERROR_IO_PENDING = 997"

text \<open>
  The exceptions the file throws: \<^verbatim>\<open>std::system_error (err, windows_category (), what)\<close>
  and \<^verbatim>\<open>std::runtime_error (what)\<close>. A failed \<^verbatim>\<open>assert\<close> and the read of \<^verbatim>\<open>report[0]\<close> in
  an empty vector, which C++ leaves undefined, are values of their own.
\<close>

datatype error =
  system_error DWORD string
  | runtime_error string
  | assert_failed string
  | undefined_behaviour string

text \<open>The members of \<^verbatim>\<open>HIDP_CAPS\<close> that the file reads.\<close>

record HIDP_CAPS =
  Usage :: USHORT
  UsagePage :: USHORT
  InputReportByteLength :: USHORT
  OutputReportByteLength :: USHORT
  FeatureReportByteLength :: USHORT
  NumberInputButtonCaps :: USHORT
  NumberInputValueCaps :: USHORT
  NumberOutputButtonCaps :: USHORT
  NumberOutputValueCaps :: USHORT
  NumberFeatureButtonCaps :: USHORT
  NumberFeatureValueCaps :: USHORT

definition zero_HIDP_CAPS :: HIDP_CAPS where
  "zero_HIDP_CAPS = \<lparr>Usage = 0, UsagePage = 0, InputReportByteLength = 0,
     OutputReportByteLength = 0, FeatureReportByteLength = 0,
     NumberInputButtonCaps = 0, NumberInputValueCaps = 0,
     NumberOutputButtonCaps = 0, NumberOutputValueCaps = 0,
     NumberFeatureButtonCaps = 0, NumberFeatureValueCaps = 0\<rparr>"

text \<open>
  The members of \<^verbatim>\<open>HIDP_BUTTON_CAPS\<close> and \<^verbatim>\<open>HIDP_VALUE_CAPS\<close> that the file reads, under
  the paths it reads them by (\<^verbatim>\<open>cap.Range.UsageMin\<close>, \<^verbatim>\<open>cap.NotRange.DataIndex\<close>). The
  generic lambda \<^verbatim>\<open>add_field\<close> treats both structures alike, so one record stands for both.
\<close>

record HIDP_CAP =
  cap_UsagePage :: USHORT
  cap_ReportID :: UCHAR
  cap_BitField :: USHORT
  cap_IsRange :: bool
  Range_UsageMin :: USHORT
  Range_UsageMax :: USHORT
  NotRange_Usage :: USHORT
  NotRange_DataIndex :: USHORT

definition zero_HIDP_CAP :: HIDP_CAP where
  "zero_HIDP_CAP = \<lparr>cap_UsagePage = 0, cap_ReportID = 0, cap_BitField = 0, cap_IsRange = False,
     Range_UsageMin = 0, Range_UsageMax = 0, NotRange_Usage = 0, NotRange_DataIndex = 0\<rparr>"

section \<open>RawDevice::PrivateImpl and RawDevice\<close>

text \<open>
  \<^verbatim>\<open>PrivateImpl::Device\<close> (its member \<^verbatim>\<open>file\<close> is primed here).
  \<^verbatim>\<open>devices.push_back ({hdev, event})\<close> leaves \<^verbatim>\<open>caps\<close> value-initialised, that is zero.
\<close>

record Device =
  file' :: HANDLE
  event :: HANDLE
  caps :: HIDP_CAPS

text \<open>
  \<^verbatim>\<open>PrivateImpl\<close>. Its member \<^verbatim>\<open>std::map<uint8_t, HANDLE> reports\<close> is called \<open>routes\<close>
  here, \<^verbatim>\<open>ReportCollection\<close> having a member \<^verbatim>\<open>reports\<close> too.
\<close>

record PrivateImpl =
  devices :: "Device list"
  routes :: "uint8_t \<rightharpoonup> HANDLE"
  interrupted_event :: HANDLE

definition make_PrivateImpl :: PrivateImpl where
  "make_PrivateImpl = \<lparr>devices = [], routes = Map.empty, interrupted_event = INVALID_HANDLE_VALUE\<rparr>"

text \<open>
  \<^verbatim>\<open>RawDevice\<close>: \<^verbatim>\<open>_p\<close>, \<^verbatim>\<open>_vendor_id\<close>, \<^verbatim>\<open>_product_id\<close>, \<^verbatim>\<open>_name\<close> and \<^verbatim>\<open>_report_desc\<close>.
  \<^verbatim>\<open>_vendor_id\<close> and \<^verbatim>\<open>_product_id\<close> are \<^verbatim>\<open>uint16_t\<close> members without an initialiser:
  each is \<open>None\<close> as long as nothing has been assigned to it, its value being then
  indeterminate, and \<open>Some\<close> of the value assigned afterwards.
\<close>

record RawDevice =
  p :: PrivateImpl
  vendor_id :: "uint16_t option"
  product_id :: "uint16_t option"
  name :: string
  report_desc :: ReportDescriptor

section \<open>The descriptor builder of the constructor\<close>

text \<open>The body of the lambda \<^verbatim>\<open>add_field\<close> after the bucket is found: the field of a capability.\<close>

definition field_of_cap :: "HIDP_CAP \<Rightarrow> ReportField" where
  "field_of_cap cap =
     \<lparr>flags = \<lparr>bits = ucast (cap_BitField cap)\<rparr>,
      usages =
        (if cap_IsRange cap
         then UsageRange
           (push_bit 16 (ucast (cap_UsagePage cap)) OR ucast (Range_UsageMin cap))
           (push_bit 16 (ucast (cap_UsagePage cap)) OR ucast (Range_UsageMax cap))
         else UsageList
           [push_bit 16 (ucast (cap_UsagePage cap)) OR ucast (NotRange_Usage cap)])\<rparr>"

text \<open>
  \<^verbatim>\<open>collection.reports.emplace (key, 0)\<close> followed by \<^verbatim>\<open>it->second.emplace_back ()\<close>: the
  bucket of the key is found by the map's order (two keys are the same key when neither is
  less than the other), or inserted empty at its place, and the field is appended to it.
\<close>

fun emplace_field :: "ReportID \<Rightarrow> ReportField \<Rightarrow> reports_map \<Rightarrow> reports_map" where
  "emplace_field k f [] = [(k, [f])]"
| "emplace_field k f ((k', fs) # rest) =
     (if ReportID_less k k' then (k, [f]) # (k', fs) # rest
      else if ReportID_less k' k then (k', fs) # emplace_field k f rest
      else (k', fs @ [f]) # rest)"

text \<open>The key \<^verbatim>\<open>ReportID{report_type, cap.ReportID}\<close> of the lambda.\<close>

definition report_key :: "ReportID_Type \<Rightarrow> HIDP_CAP \<Rightarrow> ReportID" where
  "report_key report_type cap = \<lparr>type' = report_type, id' = ucast (cap_ReportID cap)\<rparr>"

definition add_field :: "ReportID_Type \<Rightarrow> HIDP_CAP \<Rightarrow> ReportCollection \<Rightarrow> ReportCollection" where
  "add_field report_type cap collection =
     collection\<lparr>reports :=
       emplace_field (report_key report_type cap) (field_of_cap cap) (reports collection)\<rparr>"

text \<open>
  The three loops under the comment \<^verbatim>\<open>// Add fields ordered by DataIndex\<close>: the first runs
  while both iterators are inside their vectors, the other two drain what is left.
\<close>

fun add_fields_ordered ::
  "ReportID_Type \<Rightarrow> HIDP_CAP list \<Rightarrow> HIDP_CAP list \<Rightarrow> ReportCollection \<Rightarrow> ReportCollection" where
  "add_fields_ordered t (b # bs) (v # vs) c =
     (if NotRange_DataIndex b < NotRange_DataIndex v
      then add_fields_ordered t bs (v # vs) (add_field t b c)
      else add_fields_ordered t (b # bs) vs (add_field t v c))"
| "add_fields_ordered t (b # bs) [] c = add_fields_ordered t bs [] (add_field t b c)"
| "add_fields_ordered t [] (v # vs) c = add_fields_ordered t [] vs (add_field t v c)"
| "add_fields_ordered t [] [] c = c"

text \<open>
  The order in which the three loops call \<^verbatim>\<open>add_field\<close>, as a list of capabilities: the
  merge of the two vectors by data index that the specification describes.
\<close>

fun merge_by_DataIndex :: "HIDP_CAP list \<Rightarrow> HIDP_CAP list \<Rightarrow> HIDP_CAP list" where
  "merge_by_DataIndex (b # bs) (v # vs) =
     (if NotRange_DataIndex b < NotRange_DataIndex v
      then b # merge_by_DataIndex bs (v # vs)
      else v # merge_by_DataIndex (b # bs) vs)"
| "merge_by_DataIndex bs [] = bs"
| "merge_by_DataIndex [] vs = vs"




section \<open>The constructor RawDevice (const std::string &path)\<close>

text \<open>
  What Windows answers about one interface that \<^verbatim>\<open>enumerator.get (i++)\<close> returns, one
  member for each call the loop body makes on it. A handle comes with the value of
  \<^verbatim>\<open>GetLastError ()\<close>; a call that returns \<^verbatim>\<open>FALSE\<close> is \<open>Inl\<close> or \<open>Some\<close> of that value;
  a \<^verbatim>\<open>HidP_\<close> call whose status is not \<^verbatim>\<open>HIDP_STATUS_SUCCESS\<close> is \<open>None\<close>, and otherwise
  gives what it wrote. \<^verbatim>\<open>DeviceEnumerator\<close> and \<^verbatim>\<open>DeviceData\<close> are declared in
  \<^verbatim>\<open>windows/DeviceData.h\<close>; only the results of \<^verbatim>\<open>parentInst ()\<close> and \<^verbatim>\<open>devicePath ()\<close>
  are used.
\<close>

record os_interface =
  parentInst :: "bool \<times> DEVINST"
  devicePath :: string
  os_CreateFile :: "HANDLE \<times> DWORD"
  os_CreateEvent :: "HANDLE \<times> DWORD"
  os_GetAttributes :: "DWORD + uint16_t \<times> uint16_t"
  os_GetManufacturerString :: "DWORD + string"
  os_GetProductString :: "DWORD + string"
  os_GetPreparsedData :: "DWORD option"
  os_GetCaps :: "HIDP_CAPS option"
  os_GetButtonCaps :: "ReportID_Type \<Rightarrow> HIDP_CAP list option"
  os_GetValueCaps :: "ReportID_Type \<Rightarrow> HIDP_CAP list option"

text \<open>
  \<^verbatim>\<open>std::vector<HIDP_BUTTON_CAPS> button_caps (button_count)\<close> holds \<open>n\<close> zeroed entries, of
  which the query overwrites the first ones with what Windows reports.
\<close>

definition fill_caps :: "nat \<Rightarrow> HIDP_CAP list \<Rightarrow> HIDP_CAP list" where
  "fill_caps n filled = take n filled @ replicate (n - length filled) zero_HIDP_CAP"

text \<open>
  \<^verbatim>\<open>if (len > 0 && HIDP_STATUS_SUCCESS != HidP_Get...Caps (...)) throw std::runtime_error (what)\<close>,
  written once for the two places where the loop has it.
\<close>

definition query_caps :: "string \<Rightarrow> nat \<Rightarrow> HIDP_CAP list option \<Rightarrow> error + HIDP_CAP list" where
  "query_caps what n answer =
     (if 0 < n
      then (case answer of
              None \<Rightarrow> Inl (runtime_error what)
            | Some filled \<Rightarrow> Inr (fill_caps n filled))
      else Inr [])"

text \<open>The initializer list of the \<^verbatim>\<open>for\<close> loop over the three report types.\<close>

definition report_type_counts :: "HIDP_CAPS \<Rightarrow> (ReportID_Type \<times> nat \<times> nat) list" where
  "report_type_counts hc =
     [(Input, unat (NumberInputButtonCaps hc), unat (NumberInputValueCaps hc)),
      (Output, unat (NumberOutputButtonCaps hc), unat (NumberOutputValueCaps hc)),
      (Feature, unat (NumberFeatureButtonCaps hc), unat (NumberFeatureValueCaps hc))]"

fun add_report_types ::
  "os_interface \<Rightarrow> (ReportID_Type \<times> nat \<times> nat) list \<Rightarrow> ReportCollection
   \<Rightarrow> error + ReportCollection" where
  "add_report_types dev [] collection = Inr collection"
| "add_report_types dev ((report_type, button_count, value_count) # rest) collection =
     (case query_caps ''HidP_GetButtonCaps failed'' button_count
             (os_GetButtonCaps dev report_type) of
        Inl e \<Rightarrow> Inl e
      | Inr button_caps \<Rightarrow>
          (case query_caps ''HidP_GetValueCaps failed'' value_count
                  (os_GetValueCaps dev report_type) of
             Inl e \<Rightarrow> Inl e
           | Inr value_caps \<Rightarrow>
               add_report_types dev rest
                 (add_fields_ordered report_type button_caps value_caps collection)))"

text \<open>
  The loop over \<^verbatim>\<open>collection.reports\<close> that fills \<^verbatim>\<open>_p->reports\<close>:
  \<^verbatim>\<open>emplace (id.id, hdev)\<close> inserts only when the key is new, and an entry found with
  another handle throws.
\<close>

fun route_reports ::
  "HANDLE \<Rightarrow> ReportID list \<Rightarrow> (uint8_t \<rightharpoonup> HANDLE) \<Rightarrow> error + (uint8_t \<rightharpoonup> HANDLE)" where
  "route_reports hdev [] m = Inr m"
| "route_reports hdev (k # ks) m =
     (case m (ucast (id' k)) of
        None \<Rightarrow> route_reports hdev ks (m(ucast (id' k) \<mapsto> hdev))
      | Some h \<Rightarrow>
          if h \<noteq> hdev then Inl (runtime_error ''Same Report ID on different handle.'')
          else route_reports hdev ks m)"

text \<open>The block under \<^verbatim>\<open>if (first)\<close>.\<close>

definition read_attributes :: "os_interface \<Rightarrow> RawDevice \<Rightarrow> error + RawDevice" where
  "read_attributes dev d =
     (case os_GetAttributes dev of
        Inl err \<Rightarrow> Inl (system_error err ''HidD_GetAttributes'')
      | Inr (vid, pid) \<Rightarrow>
          (case os_GetManufacturerString dev of
             Inl err \<Rightarrow> Inl (system_error err ''HidD_GetManufacturerString'')
           | Inr manufacturer \<Rightarrow>
               (case os_GetProductString dev of
                  Inl err \<Rightarrow> Inl (system_error err ''HidD_GetProductString'')
                | Inr product \<Rightarrow>
                    Inr (d\<lparr>vendor_id := Some vid, product_id := Some pid,
                           name := manufacturer @ '' '' @ product\<rparr>))))"

text \<open>
  The loop body from \<^verbatim>\<open>CreateEvent\<close> on, for an interface that \<^verbatim>\<open>CreateFile\<close> opened as
  \<open>hdev\<close>. A throw abandons the object under construction, so the device is only built on
  the path that reaches the end of the body. \<^verbatim>\<open>emplace_back ()\<close> value-initialises the
  collection: its type is the enumerator of value 0.
\<close>

definition add_interface ::
  "os_interface \<Rightarrow> HANDLE \<Rightarrow> bool \<Rightarrow> RawDevice \<Rightarrow> error + RawDevice" where
  "add_interface dev hdev first d =
     (case os_CreateEvent dev of (ev, err) \<Rightarrow>
        if ev = INVALID_HANDLE_VALUE then Inl (system_error err ''CreateEvent'')
        else
          (case (if first then read_attributes dev d else Inr d) of
             Inl e \<Rightarrow> Inl e
           | Inr d1 \<Rightarrow>
               (case os_GetPreparsedData dev of
                  Some err' \<Rightarrow> Inl (system_error err' ''HidD_GetPreparsedData'')
                | None \<Rightarrow>
                    (case os_GetCaps dev of
                       None \<Rightarrow> Inl (runtime_error ''HidP_GetCaps failed'')
                     | Some hc \<Rightarrow>
                         (case add_report_types dev (report_type_counts hc)
                                 \<lparr>ctype = Physical,
                                  usage = push_bit 16 (ucast (UsagePage hc)) OR ucast (Usage hc),
                                  reports = []\<rparr> of
                            Inl e \<Rightarrow> Inl e
                          | Inr collection \<Rightarrow>
                              (case route_reports hdev (map fst (reports collection))
                                      (routes (p d1)) of
                                 Inl e \<Rightarrow> Inl e
                               | Inr routes' \<Rightarrow>
                                   Inr (d1\<lparr>p := (p d1)
                                            \<lparr>devices := devices (p d1)
                                               @ [\<lparr>file' = hdev, event = ev, caps = hc\<rparr>],
                                             routes := routes'\<rparr>,
                                          report_desc :=
                                            \<lparr>collections = collections (report_desc d1)
                                               @ [collection]\<rparr>\<rparr>)))))))"

text \<open>
  The \<^verbatim>\<open>while\<close> loop over the enumerated interfaces. The first \<^verbatim>\<open>continue\<close> skips an
  interface whose parent is unknown or is another device; the second one skips an
  interface that \<^verbatim>\<open>CreateFile\<close> could not open. Before that second \<^verbatim>\<open>continue\<close> the
  source writes a line to \<^verbatim>\<open>Log::debug ()\<close> with the error code; the log is not part of
  what the constructor builds and is left out here, so the error code is not used.
  \<^verbatim>\<open>first\<close> is false once an interface has passed the body.
\<close>

fun enumerate_interfaces ::
  "DEVINST \<Rightarrow> os_interface list \<Rightarrow> bool \<Rightarrow> RawDevice \<Rightarrow> error + RawDevice" where
  "enumerate_interfaces parent_inst [] first d = Inr d"
| "enumerate_interfaces parent_inst (dev # rest) first d =
     (case parentInst dev of (ok, parent) \<Rightarrow>
        if \<not> ok \<or> parent \<noteq> parent_inst then enumerate_interfaces parent_inst rest first d
        else
          (case os_CreateFile dev of (hdev, err) \<Rightarrow>
             if hdev = INVALID_HANDLE_VALUE
             then enumerate_interfaces parent_inst rest first d
             else
               (case add_interface dev hdev first d of
                  Inl e \<Rightarrow> Inl e
                | Inr d' \<Rightarrow> enumerate_interfaces parent_inst rest False d')))"

text \<open>
  The object before the loop: \<^verbatim>\<open>_p\<close> is a new \<^verbatim>\<open>PrivateImpl\<close>, \<^verbatim>\<open>_name\<close> and
  \<^verbatim>\<open>_report_desc\<close> are empty, and \<^verbatim>\<open>_vendor_id\<close> and \<^verbatim>\<open>_product_id\<close> are not
  initialised; they stay so until the block under \<^verbatim>\<open>if (first)\<close> assigns them.
\<close>

definition new_RawDevice :: RawDevice where
  "new_RawDevice =
     \<lparr>p = make_PrivateImpl, vendor_id = None, product_id = None, name = [],
      report_desc = \<lparr>collections = []\<rparr>\<rparr>"

text \<open>
  The constructor. \<open>parent_inst\<close> is what \<^verbatim>\<open>DeviceData (...).deviceInst ()\<close> resolves the
  path to, \<open>enumerated\<close> the interfaces the enumerator returns, in order, and
  \<open>interrupt_event\<close> the answer to the last \<^verbatim>\<open>CreateEvent\<close>.
\<close>

definition RawDevice_path ::
  "DEVINST \<Rightarrow> os_interface list \<Rightarrow> HANDLE \<times> DWORD \<Rightarrow> error + RawDevice" where
  "RawDevice_path parent_inst enumerated interrupt_event =
     (case enumerate_interfaces parent_inst enumerated True new_RawDevice of
        Inl e \<Rightarrow> Inl e
      | Inr d \<Rightarrow>
          (case interrupt_event of (ev, err) \<Rightarrow>
             if ev = INVALID_HANDLE_VALUE then Inl (system_error err ''CreateEvent'')
             else Inr (d\<lparr>p := (p d)\<lparr>interrupted_event := ev\<rparr>\<rparr>)))"

text \<open>
  The interfaces the loop selects and opens, and the numeric report ids an interface
  declares: those of the capabilities the body reads for it.
\<close>

definition selected :: "DEVINST \<Rightarrow> os_interface \<Rightarrow> bool" where
  "selected parent_inst dev = (fst (parentInst dev) \<and> snd (parentInst dev) = parent_inst)"

definition opened :: "DEVINST \<Rightarrow> os_interface \<Rightarrow> bool" where
  "opened parent_inst dev =
     (selected parent_inst dev \<and> fst (os_CreateFile dev) \<noteq> INVALID_HANDLE_VALUE)"

section \<open>The copy constructor RawDevice (const RawDevice &other)\<close>

text \<open>
  What Windows answers while a device is copied: to \<^verbatim>\<open>ReOpenFile\<close> on a handle, to the
  \<^verbatim>\<open>CreateEvent\<close> that follows it, and to the last \<^verbatim>\<open>CreateEvent\<close>.
\<close>

record copy_os =
  os_ReOpenFile :: "HANDLE \<Rightarrow> HANDLE \<times> DWORD"
  os_CreateEvent_for :: "HANDLE \<Rightarrow> HANDLE \<times> DWORD"
  os_CreateEvent_interrupt :: "HANDLE \<times> DWORD"

fun reopen_devices :: "copy_os \<Rightarrow> Device list \<Rightarrow> Device list \<Rightarrow> error + Device list" where
  "reopen_devices os [] acc = Inr acc"
| "reopen_devices os (dev # rest) acc =
     (case os_ReOpenFile os (file' dev) of (hdev, err) \<Rightarrow>
        if hdev = INVALID_HANDLE_VALUE then Inl (system_error err ''ReOpenFile'')
        else
          (case os_CreateEvent_for os (file' dev) of (ev, err') \<Rightarrow>
             if ev = INVALID_HANDLE_VALUE then Inl (system_error err' ''CreateEvent'')
             else reopen_devices os rest
                    (acc @ [\<lparr>file' = hdev, event = ev, caps = zero_HIDP_CAPS\<rparr>])))"

text \<open>
  The member initialisers copy \<^verbatim>\<open>_vendor_id\<close>, \<^verbatim>\<open>_product_id\<close>, \<^verbatim>\<open>_name\<close> and
  \<^verbatim>\<open>_report_desc\<close>; \<^verbatim>\<open>_p\<close> is a new \<^verbatim>\<open>PrivateImpl\<close>, of which the body fills \<^verbatim>\<open>devices\<close>
  and \<^verbatim>\<open>interrupted_event\<close>.
\<close>

definition RawDevice_copy :: "copy_os \<Rightarrow> RawDevice \<Rightarrow> error + RawDevice" where
  "RawDevice_copy os other =
     (case reopen_devices os (devices (p other)) [] of
        Inl e \<Rightarrow> Inl e
      | Inr devs \<Rightarrow>
          (case os_CreateEvent_interrupt os of (ev, err) \<Rightarrow>
             if ev = INVALID_HANDLE_VALUE then Inl (system_error err ''CreateEvent'')
             else Inr \<lparr>p = make_PrivateImpl\<lparr>devices := devs, interrupted_event := ev\<rparr>,
                       vendor_id = vendor_id other, product_id = product_id other,
                       name = name other, report_desc = report_desc other\<rparr>))"

section \<open>Reading and writing reports\<close>

text \<open>
  What Windows answers to the calls of \<^verbatim>\<open>writeReport\<close>, of \<^verbatim>\<open>AsyncRead\<close> and of
  \<^verbatim>\<open>readReport\<close>, by the handle (or the handles) of the call. \<^verbatim>\<open>ReadFile\<close> returns
  \<^verbatim>\<open>TRUE\<close> with the bytes it has read, or \<^verbatim>\<open>FALSE\<close> with the value of
  \<^verbatim>\<open>GetLastError ()\<close>; \<^verbatim>\<open>WaitForMultipleObjects\<close> gives its return value, together with
  the value of \<^verbatim>\<open>GetLastError ()\<close>; the other calls are \<open>Inl\<close> or \<open>Some\<close> of the error
  code when they return \<^verbatim>\<open>FALSE\<close>.
\<close>

datatype ReadFile_answer = ReadFile_TRUE "uint8_t list" | ReadFile_FALSE DWORD

record os_answers =
  os_WriteFile :: "HANDLE \<Rightarrow> uint8_t list \<Rightarrow> DWORD + DWORD"
  os_GetOverlappedResult_write :: "HANDLE \<Rightarrow> DWORD + DWORD"
  os_ReadFile :: "HANDLE \<Rightarrow> ReadFile_answer"
  os_WaitForMultipleObjects :: "HANDLE list \<Rightarrow> DWORD \<Rightarrow> DWORD \<times> DWORD"
  os_GetOverlappedResult :: "HANDLE \<Rightarrow> DWORD + uint8_t list"
  os_CancelIoEx :: "HANDLE \<Rightarrow> DWORD option"

text \<open>
  The calls a function makes, in the order it makes them. An \<^verbatim>\<open>OVERLAPPED\<close> structure is
  named by a number: the index of its \<^verbatim>\<open>AsyncRead\<close> in the vector \<^verbatim>\<open>reads\<close>, whose
  elements never move. The last argument of \<open>Call_GetOverlappedResult\<close> is \<^verbatim>\<open>bWait\<close>.
\<close>

datatype os_call =
  Call_WriteFile HANDLE "uint8_t list"
  | Call_ReadFile HANDLE nat nat
  | Call_WaitForMultipleObjects "HANDLE list" DWORD
  | Call_GetOverlappedResult HANDLE nat bool
  | Call_CancelIoEx HANDLE nat
  | Call_Log string

text \<open>
  \<^verbatim>\<open>RawDevice::writeReport\<close>: the value returned or the exception thrown, and the calls
  made. The function assigns to no member of the device. Its one \<^verbatim>\<open>OVERLAPPED\<close>
  structure is a local variable, numbered 0 in the call that waits for the write; the
  function returns \<^verbatim>\<open>written\<close>, a \<^verbatim>\<open>DWORD\<close>, as an \<^verbatim>\<open>int\<close>.
\<close>

definition writeReport ::
  "os_answers \<Rightarrow> PrivateImpl \<Rightarrow> uint8_t list \<Rightarrow> (error + int) \<times> os_call list" where
  "writeReport os impl report =
     (case report of
        [] \<Rightarrow> (Inl (undefined_behaviour ''report[0]''), [])
      | report0 # _ \<Rightarrow>
          (case routes impl report0 of
             None \<Rightarrow> (Inl (runtime_error ''Report ID not found.''), [])
           | Some h \<Rightarrow>
               (case os_WriteFile os h report of
                  Inr written \<Rightarrow>
                    (Inr (sint written),
                     [Call_WriteFile h report, Call_Log ''Send HID report:''])
                | Inl err \<Rightarrow>
                    if err = ERROR_IO_PENDING
                    then (case os_GetOverlappedResult_write os h of
                            Inl err' \<Rightarrow>
                              (Inl (system_error err' ''GetOverlappedResult''),
                               [Call_WriteFile h report, Call_GetOverlappedResult h 0 True])
                          | Inr written \<Rightarrow>
                              (Inr (sint written),
                               [Call_WriteFile h report, Call_GetOverlappedResult h 0 True,
                                Call_Log ''Send HID report:'']))
                    else (Inl (system_error err ''WriteFile''), [Call_WriteFile h report]))))"

text \<open>
  \<^verbatim>\<open>class AsyncRead\<close>. \<open>overlapped\<close> is the number that names its \<^verbatim>\<open>OVERLAPPED\<close>
  structure and \<open>hEvent\<close> the member \<^verbatim>\<open>overlapped.hEvent\<close>.
\<close>

record AsyncRead =
  ar_file :: HANDLE
  overlapped :: nat
  hEvent :: HANDLE
  pending :: bool

text \<open>
  \<^verbatim>\<open>~AsyncRead ()\<close>: a pending read is cancelled, and a failure of \<^verbatim>\<open>CancelIoEx\<close> is
  logged. The vector's destructor runs it on every element, first to last.
\<close>

definition AsyncRead_dtor :: "os_answers \<Rightarrow> AsyncRead \<Rightarrow> os_call list" where
  "AsyncRead_dtor os r =
     (if pending r
      then Call_CancelIoEx (ar_file r) (overlapped r)
           # (case os_CancelIoEx os (ar_file r) of
                None \<Rightarrow> []
              | Some err \<Rightarrow> [Call_Log ''Failed to cancel async read: ''])
      else [])"

definition destroy_reads :: "os_answers \<Rightarrow> AsyncRead list \<Rightarrow> os_call list" where
  "destroy_reads os rs = concat (map (AsyncRead_dtor os) rs)"

text \<open>
  The three ways out of the \<^verbatim>\<open>for\<close> loop of \<^verbatim>\<open>readReport\<close>: \<^verbatim>\<open>AsyncRead::read\<close> throws,
  a read returns at once (\<^verbatim>\<open>goto report_read\<close>), or the loop ends and the function
  waits. Each carries the vector \<^verbatim>\<open>reads\<close> and the calls made so far.
\<close>

datatype issue_result =
  Issue_throw error "AsyncRead list" "os_call list"
  | Issue_report_read "uint8_t list" "AsyncRead list" "os_call list"
  | Issue_wait "HANDLE list" "AsyncRead list" "os_call list"

text \<open>
  The \<^verbatim>\<open>for\<close> loop over \<^verbatim>\<open>_p->devices\<close>, with \<^verbatim>\<open>AsyncRead::read\<close> in its place: the
  constructor sets \<^verbatim>\<open>pending\<close> to false, \<^verbatim>\<open>read\<close> sets it to false when \<^verbatim>\<open>ReadFile\<close>
  returns \<^verbatim>\<open>TRUE\<close>, to true on \<^verbatim>\<open>ERROR_IO_PENDING\<close>, and throws on another error.
\<close>

fun issue_reads ::
  "os_answers \<Rightarrow> uint8_t list \<Rightarrow> Device list \<Rightarrow> HANDLE list \<Rightarrow> AsyncRead list
   \<Rightarrow> os_call list \<Rightarrow> issue_result" where
  "issue_reads os report [] handles rs tr = Issue_wait handles rs tr"
| "issue_reads os report (dev # rest) handles rs tr =
     (if length report < unat (InputReportByteLength (caps dev))
      then issue_reads os report rest handles rs tr
      else
        (case os_ReadFile os (file' dev) of
           ReadFile_TRUE data \<Rightarrow>
             Issue_report_read data
               (rs @ [\<lparr>ar_file = file' dev, overlapped = length rs, hEvent = event dev,
                       pending = False\<rparr>])
               (tr @ [Call_ReadFile (file' dev) (length rs) (length report)])
         | ReadFile_FALSE err \<Rightarrow>
             if err = ERROR_IO_PENDING
             then issue_reads os report rest (handles @ [event dev])
                    (rs @ [\<lparr>ar_file = file' dev, overlapped = length rs, hEvent = event dev,
                            pending = True\<rparr>])
                    (tr @ [Call_ReadFile (file' dev) (length rs) (length report)])
             else Issue_throw (system_error err ''ReadFile'')
                    (rs @ [\<lparr>ar_file = file' dev, overlapped = length rs, hEvent = event dev,
                            pending = False\<rparr>])
                    (tr @ [Call_ReadFile (file' dev) (length rs) (length report)])))"

text \<open>\<^verbatim>\<open>std::vector::resize\<close>: the vector is cut, or filled up with zeros.\<close>

definition resize :: "nat \<Rightarrow> uint8_t list \<Rightarrow> uint8_t list" where
  "resize n xs = take n xs @ replicate (n - length xs) 0"

text \<open>
  From the label \<^verbatim>\<open>report_read\<close> on. \<open>data\<close> are the bytes the completed read has put at
  the start of the buffer, and \<^verbatim>\<open>read\<close> is their number, a \<^verbatim>\<open>DWORD\<close>; the function
  returns it as an \<^verbatim>\<open>int\<close>. The destructors run after the log.
\<close>

definition report_read ::
  "os_answers \<Rightarrow> uint8_t list \<Rightarrow> uint8_t list \<Rightarrow> AsyncRead list \<Rightarrow> os_call list
   \<Rightarrow> (error + int) \<times> uint8_t list \<times> os_call list" where
  "report_read os data report rs tr =
     (Inr (sint (word_of_nat (length data) :: DWORD)),
      resize (unat (word_of_nat (length data) :: DWORD)) (data @ drop (length data) report),
      tr @ [Call_Log ''Recv HID report:''] @ destroy_reads os rs)"

text \<open>The last argument of \<^verbatim>\<open>WaitForMultipleObjects\<close>; \<open>timeout\<close> is an \<^verbatim>\<open>int\<close>.\<close>

definition wait_milliseconds :: "32 word \<Rightarrow> DWORD" where
  "wait_milliseconds timeout = (if timeout <s 0 then INFINITE else timeout)"

text \<open>
  \<^verbatim>\<open>RawDevice::readReport\<close>: the value returned or the exception thrown, the vector
  \<^verbatim>\<open>report\<close> as the function leaves it, and the calls made, those of the destructors of
  \<^verbatim>\<open>reads\<close> last.
\<close>

definition readReport ::
  "os_answers \<Rightarrow> PrivateImpl \<Rightarrow> uint8_t list \<Rightarrow> 32 word
   \<Rightarrow> (error + int) \<times> uint8_t list \<times> os_call list" where
  "readReport os impl report timeout =
     (if interrupted_event impl = INVALID_HANDLE_VALUE
      then (Inl (assert_failed ''_p->interrupted_event != INVALID_HANDLE_VALUE''), report, [])
      else
        (case issue_reads os report (devices impl) [interrupted_event impl] [] [] of
           Issue_throw e rs tr \<Rightarrow> (Inl e, report, tr @ destroy_reads os rs)
         | Issue_report_read data rs tr \<Rightarrow> report_read os data report rs tr
         | Issue_wait handles rs tr \<Rightarrow>
             (case os_WaitForMultipleObjects os handles (wait_milliseconds timeout) of
                (ret, err) \<Rightarrow>
                  if ret = WAIT_OBJECT_0 \<or> ret = WAIT_TIMEOUT
                  then (Inr 0, report,
                        tr @ [Call_WaitForMultipleObjects handles (wait_milliseconds timeout)]
                        @ destroy_reads os rs)
                  else if ret = WAIT_FAILED
                  then (Inl (system_error err ''WaitForMultipleObject''), report,
                        tr @ [Call_WaitForMultipleObjects handles (wait_milliseconds timeout)]
                        @ destroy_reads os rs)
                  else if ret - WAIT_OBJECT_0 - 1 < 0
                          \<or> length rs \<le> unat (ret - WAIT_OBJECT_0 - 1)
                  then (Inl (runtime_error
                               ''Unexpected return value from WaitForMultipleObject''),
                        report,
                        tr @ [Call_WaitForMultipleObjects handles (wait_milliseconds timeout)]
                        @ destroy_reads os rs)
                  else
                    (case os_GetOverlappedResult os
                            (ar_file (rs ! unat (ret - WAIT_OBJECT_0 - 1))) of
                       Inl err' \<Rightarrow>
                         (Inl (system_error err' ''GetOverlappedResult''), report,
                          tr @ [Call_WaitForMultipleObjects handles (wait_milliseconds timeout),
                                Call_GetOverlappedResult
                                  (ar_file (rs ! unat (ret - WAIT_OBJECT_0 - 1)))
                                  (overlapped (rs ! unat (ret - WAIT_OBJECT_0 - 1))) False]
                          @ destroy_reads os
                              (rs[unat (ret - WAIT_OBJECT_0 - 1) :=
                                    (rs ! unat (ret - WAIT_OBJECT_0 - 1))\<lparr>pending := False\<rparr>]))
                     | Inr data \<Rightarrow>
                         report_read os data report
                           (rs[unat (ret - WAIT_OBJECT_0 - 1) :=
                                 (rs ! unat (ret - WAIT_OBJECT_0 - 1))\<lparr>pending := False\<rparr>])
                           (tr @ [Call_WaitForMultipleObjects handles
                                    (wait_milliseconds timeout),
                                  Call_GetOverlappedResult
                                    (ar_file (rs ! unat (ret - WAIT_OBJECT_0 - 1)))
                                    (overlapped (rs ! unat (ret - WAIT_OBJECT_0 - 1))) False])))))"

section \<open>What a list of calls tells\<close>

text \<open>
  The reads a list of calls starts, finishes and cancels, each named by its handle and
  the number of its \<^verbatim>\<open>OVERLAPPED\<close> structure; a started read stays outstanding when
  \<^verbatim>\<open>ReadFile\<close> answers \<^verbatim>\<open>ERROR_IO_PENDING\<close>.
\<close>

fun read_files :: "os_call list \<Rightarrow> HANDLE list" where
  "read_files [] = []"
| "read_files (Call_ReadFile h ov n # cs) = h # read_files cs"
| "read_files (c # cs) = read_files cs"

fun started_pending :: "os_answers \<Rightarrow> os_call list \<Rightarrow> (HANDLE \<times> nat) list" where
  "started_pending os [] = []"
| "started_pending os (Call_ReadFile h ov n # cs) =
     (if os_ReadFile os h = ReadFile_FALSE ERROR_IO_PENDING
      then (h, ov) # started_pending os cs else started_pending os cs)"
| "started_pending os (c # cs) = started_pending os cs"

fun finished :: "os_call list \<Rightarrow> (HANDLE \<times> nat) list" where
  "finished [] = []"
| "finished (Call_GetOverlappedResult h ov w # cs) = (h, ov) # finished cs"
| "finished (c # cs) = finished cs"

fun cancelled :: "os_call list \<Rightarrow> (HANDLE \<times> nat) list" where
  "cancelled [] = []"
| "cancelled (Call_CancelIoEx h ov # cs) = (h, ov) # cancelled cs"
| "cancelled (c # cs) = cancelled cs"

fun waits :: "os_call list \<Rightarrow> (HANDLE list \<times> DWORD) list" where
  "waits [] = []"
| "waits (Call_WaitForMultipleObjects hs ms # cs) = (hs, ms) # waits cs"
| "waits (c # cs) = waits cs"

text \<open>
  A call that can tell the caller that an operation has ended: a wait, or
  \<^verbatim>\<open>GetOverlappedResult\<close>. A cancellation is observed, in the words of the specification,
  when such a call follows the \<^verbatim>\<open>CancelIoEx\<close>.
\<close>

fun observes :: "os_call \<Rightarrow> bool" where
  "observes (Call_WaitForMultipleObjects hs ms) = True"
| "observes (Call_GetOverlappedResult h ov w) = True"
| "observes c = False"

fun cancellations_observed :: "os_call list \<Rightarrow> bool" where
  "cancellations_observed [] = True"
| "cancellations_observed (Call_CancelIoEx h ov # cs) =
     (list_ex observes cs \<and> cancellations_observed cs)"
| "cancellations_observed (c # cs) = cancellations_observed cs"

text \<open>No call that observes anything comes after the first \<^verbatim>\<open>CancelIoEx\<close>.\<close>

fun nothing_observed_after_cancel :: "os_call list \<Rightarrow> bool" where
  "nothing_observed_after_cancel [] = True"
| "nothing_observed_after_cancel (Call_CancelIoEx h ov # cs) = (\<not> list_ex observes cs)"
| "nothing_observed_after_cancel (c # cs) = nothing_observed_after_cancel cs"

text \<open>The interfaces whose input reports fit the buffer: the test of the \<^verbatim>\<open>for\<close> loop.\<close>

definition fits :: "uint8_t list \<Rightarrow> Device \<Rightarrow> bool" where
  "fits report dev = (\<not> length report < unat (InputReportByteLength (caps dev)))"

text \<open>
  The interfaces on which the loop calls \<^verbatim>\<open>ReadFile\<close>: those that fit, in order, up to and
  including the first one whose read is not left pending. \<open>read_of\<close> is the \<^verbatim>\<open>AsyncRead\<close>
  the loop leaves in \<^verbatim>\<open>reads\<close> for the interface numbered \<open>k\<close>.
\<close>

fun attempted :: "os_answers \<Rightarrow> uint8_t list \<Rightarrow> Device list \<Rightarrow> Device list" where
  "attempted os report [] = []"
| "attempted os report (dev # rest) =
     (if \<not> fits report dev then attempted os report rest
      else if os_ReadFile os (file' dev) = ReadFile_FALSE ERROR_IO_PENDING
      then dev # attempted os report rest
      else [dev])"

definition read_of :: "os_answers \<Rightarrow> nat \<times> Device \<Rightarrow> AsyncRead" where
  "read_of os kd =
     \<lparr>ar_file = file' (snd kd), overlapped = fst kd, hEvent = event (snd kd),
      pending = (os_ReadFile os (file' (snd kd)) = ReadFile_FALSE ERROR_IO_PENDING)\<rparr>"

definition read_call :: "uint8_t list \<Rightarrow> nat \<times> Device \<Rightarrow> os_call" where
  "read_call report kd = Call_ReadFile (file' (snd kd)) (fst kd) (length report)"

fun issue_reads_of :: "issue_result \<Rightarrow> AsyncRead list" where
  "issue_reads_of (Issue_throw e rs tr) = rs"
| "issue_reads_of (Issue_report_read data rs tr) = rs"
| "issue_reads_of (Issue_wait handles rs tr) = rs"

fun issue_calls_of :: "issue_result \<Rightarrow> os_call list" where
  "issue_calls_of (Issue_throw e rs tr) = tr"
| "issue_calls_of (Issue_report_read data rs tr) = tr"
| "issue_calls_of (Issue_wait handles rs tr) = tr"

section \<open>An example device\<close>

text \<open>
  The device of the specification's example: interface A (file 1, event 2) has input
  reports of 7 bytes and owns report id 1, interface B (file 3, event 4) has input
  reports of 16 bytes and owns report id 2; the interrupt event is 5. In
  \<open>example_os\<close> every read is left pending, the wait returns \<open>ret\<close> with the last error 6,
  a finished read has transferred three bytes and every other call succeeds.
\<close>

definition example_impl :: PrivateImpl where
  "example_impl =
     \<lparr>devices =
        [\<lparr>file' = 1, event = 2, caps = zero_HIDP_CAPS\<lparr>InputReportByteLength := 7\<rparr>\<rparr>,
         \<lparr>file' = 3, event = 4, caps = zero_HIDP_CAPS\<lparr>InputReportByteLength := 16\<rparr>\<rparr>],
      routes = [1 \<mapsto> 1, 2 \<mapsto> 3],
      interrupted_event = 5\<rparr>"

definition example_os :: "DWORD \<Rightarrow> os_answers" where
  "example_os ret =
     \<lparr>os_WriteFile = (\<lambda>h bytes. Inr (word_of_nat (length bytes))),
      os_GetOverlappedResult_write = (\<lambda>h. Inr 0),
      os_ReadFile = (\<lambda>h. ReadFile_FALSE ERROR_IO_PENDING),
      os_WaitForMultipleObjects = (\<lambda>hs ms. (ret, 6)),
      os_GetOverlappedResult = (\<lambda>h. Inr [2, 17, 34]),
      os_CancelIoEx = (\<lambda>h. None)\<rparr>"

text \<open>The same answers, but the read on interface A returns at once with two bytes.\<close>

definition example_os_sync :: os_answers where
  "example_os_sync =
     (example_os 0)\<lparr>os_ReadFile :=
        (\<lambda>h. if h = 1 then ReadFile_TRUE [1, 9] else ReadFile_FALSE ERROR_IO_PENDING)\<rparr>"

text \<open>
  A capability with a report id and a data index, an empty collection, an interface of
  parent 7 that \<^verbatim>\<open>CreateFile\<close> cannot open (error 5), and a device around
  \<open>example_impl\<close> with the answers Windows gives while it is copied: the file \<open>h\<close> is
  re-opened as \<open>h + 10\<close>, its event is \<open>h + 20\<close> and the interrupt event is 30.
\<close>

definition example_cap :: "UCHAR \<Rightarrow> USHORT \<Rightarrow> HIDP_CAP" where
  "example_cap report_id data_index =
     zero_HIDP_CAP\<lparr>cap_ReportID := report_id, NotRange_DataIndex := data_index\<rparr>"


definition example_unopenable :: os_interface where
  "example_unopenable =
     \<lparr>parentInst = (True, 7), devicePath = ''hid#a'',
      os_CreateFile = (INVALID_HANDLE_VALUE, 5), os_CreateEvent = (2, 0),
      os_GetAttributes = Inr (1133, 50475),
      os_GetManufacturerString = Inr ''Logitech'',
      os_GetProductString = Inr ''USB Receiver'',
      os_GetPreparsedData = None, os_GetCaps = Some zero_HIDP_CAPS,
      os_GetButtonCaps = (\<lambda>t. Some []), os_GetValueCaps = (\<lambda>t. Some [])\<rparr>"

definition example_device :: RawDevice where
  "example_device =
     \<lparr>p = example_impl, vendor_id = Some 1133, product_id = Some 50475,
      name = ''Logitech USB Receiver'', report_desc = \<lparr>collections = []\<rparr>\<rparr>"

definition example_copy_os :: copy_os where
  "example_copy_os =
     \<lparr>os_ReOpenFile = (\<lambda>h. (h + 10, 0)), os_CreateEvent_for = (\<lambda>h. (h + 20, 0)),
      os_CreateEvent_interrupt = (30, 0)\<rparr>"

text \<open>
  The answers of \<open>example_os 2\<close>, in which the wait returns the index of the event of
  interface B, but the query of a finished read fails with error 995.
\<close>

definition example_os_query_fails :: os_answers where
  "example_os_query_fails = (example_os 2)\<lparr>os_GetOverlappedResult := (\<lambda>h. Inl 995)\<rparr>"

section \<open>What an interface declares\<close>

text \<open>
  The capabilities the loop body reads for an interface, each with its report type, in
  the order of the three report types, and the report ids they declare: the keys under
  which \<^verbatim>\<open>add_field\<close> files them. \<open>queries_succeed\<close> says that no call the body makes on
  the interface fails.
\<close>

definition caps_of :: "nat \<Rightarrow> HIDP_CAP list option \<Rightarrow> HIDP_CAP list" where
  "caps_of n answer = (case query_caps [] n answer of Inl e \<Rightarrow> [] | Inr cs \<Rightarrow> cs)"

fun caps_read ::
  "os_interface \<Rightarrow> (ReportID_Type \<times> nat \<times> nat) list \<Rightarrow> (ReportID_Type \<times> HIDP_CAP) list" where
  "caps_read dev [] = []"
| "caps_read dev ((report_type, button_count, value_count) # rest) =
     map (Pair report_type) (caps_of button_count (os_GetButtonCaps dev report_type))
     @ map (Pair report_type) (caps_of value_count (os_GetValueCaps dev report_type))
     @ caps_read dev rest"

definition declared :: "os_interface \<Rightarrow> ReportID list" where
  "declared dev =
     (case os_GetCaps dev of
        None \<Rightarrow> []
      | Some hc \<Rightarrow> map (\<lambda>tc. report_key (fst tc) (snd tc)) (caps_read dev (report_type_counts hc)))"

fun caps_queries_succeed :: "os_interface \<Rightarrow> (ReportID_Type \<times> nat \<times> nat) list \<Rightarrow> bool" where
  "caps_queries_succeed dev [] = True"
| "caps_queries_succeed dev ((report_type, button_count, value_count) # rest) =
     ((button_count = 0 \<or> os_GetButtonCaps dev report_type \<noteq> None)
      \<and> (value_count = 0 \<or> os_GetValueCaps dev report_type \<noteq> None)
      \<and> caps_queries_succeed dev rest)"

definition queries_succeed :: "os_interface \<Rightarrow> bool" where
  "queries_succeed dev =
     (fst (os_CreateEvent dev) \<noteq> INVALID_HANDLE_VALUE
      \<and> \<not> isl (os_GetAttributes dev)
      \<and> \<not> isl (os_GetManufacturerString dev)
      \<and> \<not> isl (os_GetProductString dev)
      \<and> os_GetPreparsedData dev = None
      \<and> (case os_GetCaps dev of
            None \<Rightarrow> False
          | Some hc \<Rightarrow> caps_queries_succeed dev (report_type_counts hc)))"

text \<open>
  An interface of parent 7 that opens as the handle \<open>h\<close> and declares one input button
  capability, with the given report id; every call on it succeeds.
\<close>

definition example_interface :: "HANDLE \<Rightarrow> UCHAR \<Rightarrow> os_interface" where
  "example_interface h report_id =
     \<lparr>parentInst = (True, 7), devicePath = ''hid#b'',
      os_CreateFile = (h, 0), os_CreateEvent = (h + 1, 0),
      os_GetAttributes = Inr (1133, 50475),
      os_GetManufacturerString = Inr ''Logitech'',
      os_GetProductString = Inr ''USB Receiver'',
      os_GetPreparsedData = None,
      os_GetCaps = Some (zero_HIDP_CAPS\<lparr>InputReportByteLength := 7,
                                        NumberInputButtonCaps := 1\<rparr>),
      os_GetButtonCaps = (\<lambda>t. Some [example_cap report_id 0]),
      os_GetValueCaps = (\<lambda>t. Some [])\<rparr>"

text \<open>The name of a read in a list of calls: its handle and its \<^verbatim>\<open>OVERLAPPED\<close> structure.\<close>

definition call_key :: "AsyncRead \<Rightarrow> HANDLE \<times> nat" where
  "call_key r = (ar_file r, overlapped r)"

section \<open>Properties of the flag projections\<close>

text \<open>
  C10. For every value of \<^verbatim>\<open>ReportField::Flags\<close>, that is for every bit pattern of
  \<^verbatim>\<open>bits\<close>, the projections are complementary in pairs: \<^verbatim>\<open>isData ()\<close> holds exactly when
  \<^verbatim>\<open>isConstant ()\<close> does not, and \<^verbatim>\<open>isArray ()\<close> holds exactly when \<^verbatim>\<open>isVariable ()\<close>
  does not.
\<close>

theorem Flags_projections_complementary:
  "isData f = (\<not> isConstant f) \<and> isArray f = (\<not> isVariable f)"
  by (simp add: isData_def isConstant_def isArray_def isVariable_def)

theorem Flags_projections_complementary_witness:
  "isData \<lparr>bits = 3\<rparr> = (\<not> isConstant \<lparr>bits = 3\<rparr>)
   \<and> isArray \<lparr>bits = 3\<rparr> = (\<not> isVariable \<lparr>bits = 3\<rparr>)
   \<and> isConstant \<lparr>bits = 3\<rparr> \<and> isVariable \<lparr>bits = 3\<rparr>
   \<and> isData \<lparr>bits = 4\<rparr> \<and> isArray \<lparr>bits = 4\<rparr>"
  using Flags_projections_complementary [of "\<lparr>bits = 3\<rparr>"]
  by (simp add: isData_def isConstant_def isArray_def isVariable_def
      Data_Constant_def Array_Variable_def)

section \<open>Lemmas about the descriptor builder\<close>


lemma ReportID_Type_value_inj: "ReportID_Type_value a = ReportID_Type_value b \<Longrightarrow> a = b"
  by (cases a; cases b) simp_all

lemma ReportID_less_total:
  fixes k k' :: ReportID
  shows "\<not> ReportID_less k k' \<Longrightarrow> \<not> ReportID_less k' k \<Longrightarrow> k = k'"
  by (auto simp: ReportID_less_def not_less dest!: ReportID_Type_value_inj
      intro!: ReportID.equality)




lemma fst_set_emplace_field: "fst ` set (emplace_field k f m) = insert k (fst ` set m)"
proof (induction m)
  case Nil
  show ?case by simp
next
  case (Cons e m)
  obtain k0 fs where e: "e = (k0, fs)" by (cases e)
  show ?case
    using Cons ReportID_less_total [of k k0] by (auto simp: e)
qed









lemma merge_by_DataIndex_Nil [simp]: "merge_by_DataIndex [] vs = vs"
  by (cases vs) simp_all

lemma add_fields_ordered_fold:
  "add_fields_ordered t bs vs c = fold (add_field t) (merge_by_DataIndex bs vs) c"
  by (induction t bs vs c rule: add_fields_ordered.induct) simp_all


lemma set_merge_by_DataIndex:
  "set (merge_by_DataIndex bs vs) = set bs \<union> set vs"
  by (induction bs vs rule: merge_by_DataIndex.induct) auto



section \<open>Lemmas about the read loop and the lists of calls\<close>

lemma issue_reads_shape:
  "issue_reads_of (issue_reads os report devs handles rs tr)
     = rs @ map (read_of os) (enumerate (length rs) (attempted os report devs))
   \<and> issue_calls_of (issue_reads os report devs handles rs tr)
     = tr @ map (read_call report) (enumerate (length rs) (attempted os report devs))"
proof (induction devs arbitrary: handles rs tr)
  case Nil
  show ?case by simp
next
  case (Cons dev rest)
  show ?case
  proof (cases "fits report dev")
    case False
    then show ?thesis using Cons [of handles rs tr] by (simp add: fits_def)
  next
    case True
    show ?thesis
    proof (cases "os_ReadFile os (file' dev)")
      case (ReadFile_TRUE data)
      then show ?thesis using True by (simp add: fits_def read_of_def read_call_def)
    next
      case (ReadFile_FALSE err)
      show ?thesis
      proof (cases "err = ERROR_IO_PENDING")
        case True
        then show ?thesis
          using \<open>fits report dev\<close> ReadFile_FALSE
            Cons [of "handles @ [event dev]"
              "rs @ [\<lparr>ar_file = file' dev, overlapped = length rs, hEvent = event dev,
                      pending = True\<rparr>]"
              "tr @ [Call_ReadFile (file' dev) (length rs) (length report)]"]
          by (simp add: fits_def read_of_def read_call_def)
      next
        case False
        then show ?thesis
          using \<open>fits report dev\<close> ReadFile_FALSE
          by (simp add: fits_def read_of_def read_call_def)
      qed
    qed
  qed
qed

lemma issue_reads_wait_handles:
  "issue_reads os report devs handles rs tr = Issue_wait handles' rs' tr'
   \<Longrightarrow> handles' = handles @ map hEvent (drop (length rs) rs')
     \<and> attempted os report devs = filter (fits report) devs
     \<and> (\<forall>dev \<in> set (filter (fits report) devs).
           os_ReadFile os (file' dev) = ReadFile_FALSE ERROR_IO_PENDING)"
proof (induction devs arbitrary: handles rs tr)
  case Nil
  then show ?case by simp
next
  case (Cons dev rest)
  show ?case
  proof (cases "fits report dev")
    case False
    then show ?thesis using Cons.IH [of handles rs tr] Cons.prems by (simp add: fits_def)
  next
    case True
    then have pend: "os_ReadFile os (file' dev) = ReadFile_FALSE ERROR_IO_PENDING"
      using Cons.prems
      by (auto simp: fits_def split: ReadFile_answer.splits if_splits)
    let ?r = "\<lparr>ar_file = file' dev, overlapped = length rs, hEvent = event dev,
                pending = True\<rparr>"
    let ?tr = "tr @ [Call_ReadFile (file' dev) (length rs) (length report)]"
    have rec: "issue_reads os report rest (handles @ [event dev]) (rs @ [?r]) ?tr
               = Issue_wait handles' rs' tr'"
      using Cons.prems True pend by (simp add: fits_def)
    have shape: "rs' = (rs @ [?r])
        @ map (read_of os) (enumerate (length (rs @ [?r])) (attempted os report rest))"
      using issue_reads_shape [of os report rest "handles @ [event dev]" "rs @ [?r]" ?tr] rec
      by simp
    have "drop (length rs) rs' = ?r # drop (Suc (length rs)) rs'"
      using shape by simp
    then show ?thesis
      using Cons.IH [OF rec] True pend by simp
  qed
qed

lemma issue_reads_all_pending:
  "\<forall>dev \<in> set (filter (fits report) devs).
      os_ReadFile os (file' dev) = ReadFile_FALSE ERROR_IO_PENDING
   \<Longrightarrow> \<exists>handles' rs' tr'. issue_reads os report devs handles rs tr = Issue_wait handles' rs' tr'"
  by (induction devs arbitrary: handles rs tr) (auto simp: fits_def)

lemma attempted_prefix: "prefix (attempted os report devs) (filter (fits report) devs)"
  by (induction devs) simp_all

lemma waits_append [simp]: "waits (xs @ ys) = waits xs @ waits ys"
  by (induction xs rule: waits.induct) simp_all

lemma finished_append [simp]: "finished (xs @ ys) = finished xs @ finished ys"
  by (induction xs rule: finished.induct) simp_all

lemma cancelled_append [simp]: "cancelled (xs @ ys) = cancelled xs @ cancelled ys"
  by (induction xs rule: cancelled.induct) simp_all

lemma read_files_append [simp]: "read_files (xs @ ys) = read_files xs @ read_files ys"
  by (induction xs rule: read_files.induct) simp_all

lemma started_pending_append [simp]:
  "started_pending os (xs @ ys) = started_pending os xs @ started_pending os ys"
  by (induction os xs rule: started_pending.induct) simp_all

lemma waits_read_calls [simp]: "waits (map (read_call report) kds) = []"
  by (induction kds) (simp_all add: read_call_def)

lemma finished_read_calls [simp]: "finished (map (read_call report) kds) = []"
  by (induction kds) (simp_all add: read_call_def)

lemma cancelled_read_calls [simp]: "cancelled (map (read_call report) kds) = []"
  by (induction kds) (simp_all add: read_call_def)

lemma waits_dtor [simp]: "waits (AsyncRead_dtor os r) = []"
  by (simp add: AsyncRead_dtor_def split: option.splits)

lemma finished_dtor [simp]: "finished (AsyncRead_dtor os r) = []"
  by (simp add: AsyncRead_dtor_def split: option.splits)

lemma read_files_dtor [simp]: "read_files (AsyncRead_dtor os r) = []"
  by (simp add: AsyncRead_dtor_def split: option.splits)

lemma started_pending_dtor [simp]: "started_pending os' (AsyncRead_dtor os r) = []"
  by (simp add: AsyncRead_dtor_def split: option.splits)

lemma waits_destroy_reads [simp]: "waits (destroy_reads os rs) = []"
  by (induction rs) (simp_all add: destroy_reads_def)

lemma finished_destroy_reads [simp]: "finished (destroy_reads os rs) = []"
  by (induction rs) (simp_all add: destroy_reads_def)

lemma read_files_destroy_reads [simp]: "read_files (destroy_reads os rs) = []"
  by (induction rs) (simp_all add: destroy_reads_def)

lemma started_pending_destroy_reads [simp]: "started_pending os' (destroy_reads os rs) = []"
  by (induction rs) (simp_all add: destroy_reads_def)

lemma issue_wait_calls:
  assumes "issue_reads os report devs handles [] [] = Issue_wait handles' rs tr"
  shows "tr = map (read_call report) (enumerate 0 (attempted os report devs))"
    and "rs = map (read_of os) (enumerate 0 (attempted os report devs))"
    and "handles' = handles @ map hEvent rs"
  using issue_reads_shape [of os report devs handles "[]" "[]"]
    issue_reads_wait_handles [OF assms] assms by simp_all

lemma WAIT_consts_distinct:
  "WAIT_OBJECT_0 \<noteq> WAIT_TIMEOUT" "WAIT_OBJECT_0 \<noteq> WAIT_FAILED" "WAIT_TIMEOUT \<noteq> WAIT_FAILED"
  by (simp_all add: WAIT_OBJECT_0_def WAIT_TIMEOUT_def WAIT_FAILED_def)

lemma length_resize [simp]: "length (resize n xs) = n"
  by (simp add: resize_def)

lemma resize_written: "resize (length data) (data @ rest) = data"
  by (simp add: resize_def)

lemma word_index_not_negative: "\<not> (i :: DWORD) < 0"
  by simp

lemma read_files_read_calls:
  "read_files (map (read_call report) (enumerate n ds)) = map file' ds"
  by (induction ds arbitrary: n) (simp_all add: read_call_def)

lemma started_pending_read_calls:
  "started_pending os (map (read_call report) (enumerate n ds))
   = map call_key (filter pending (map (read_of os) (enumerate n ds)))"
  by (induction ds arbitrary: n) (simp_all add: read_call_def read_of_def call_key_def)

lemma cancelled_dtor:
  "cancelled (AsyncRead_dtor os r) = (if pending r then [call_key r] else [])"
  by (simp add: AsyncRead_dtor_def call_key_def split: option.splits)

lemma cancelled_destroy_reads:
  "cancelled (destroy_reads os rs) = map call_key (filter pending rs)"
  by (induction rs) (simp_all add: destroy_reads_def cancelled_dtor)

lemma not_observes_dtor: "\<not> list_ex observes (AsyncRead_dtor os r)"
  by (simp add: AsyncRead_dtor_def split: option.splits)

lemma not_observes_destroy_reads: "\<not> list_ex observes (destroy_reads os rs)"
  by (induction rs) (simp_all add: destroy_reads_def not_observes_dtor)

lemma nothing_observed_if_no_observes:
  "\<not> list_ex observes cs \<Longrightarrow> nothing_observed_after_cancel cs"
  by (induction cs rule: nothing_observed_after_cancel.induct) simp_all

lemma nothing_observed_append:
  "cancelled pre = [] \<Longrightarrow> nothing_observed_after_cancel (pre @ post)
     = nothing_observed_after_cancel post"
  by (induction pre rule: cancelled.induct) simp_all

lemma nothing_observed_before_destroy:
  "cancelled pre = [] \<Longrightarrow> nothing_observed_after_cancel (pre @ destroy_reads os rs)"
  by (simp add: nothing_observed_append nothing_observed_if_no_observes
      not_observes_destroy_reads)

lemma overlapped_read_of:
  "j < length ds \<Longrightarrow> overlapped (map (read_of os) (enumerate n ds) ! j) = n + j"
  by (simp add: read_of_def nth_enumerate_eq)

lemma cancelled_after_finish:
  assumes "\<forall>j < length rs. overlapped (rs ! j) = j" and "i < length rs"
  shows "set (map call_key (filter pending (rs[i := (rs ! i)\<lparr>pending := False\<rparr>])))
         = set (map call_key (filter pending rs)) - {call_key (rs ! i)}"
proof -
  let ?rs' = "rs[i := (rs ! i)\<lparr>pending := False\<rparr>]"
  have new: "set (map call_key (filter pending ?rs'))
      = {call_key (rs ! j) | j. j < length rs \<and> j \<noteq> i \<and> pending (rs ! j)}"
  proof -
    have "set (map call_key (filter pending ?rs'))
        = {call_key (?rs' ! j) | j. j < length rs \<and> pending (?rs' ! j)}"
      by (auto simp: in_set_conv_nth) 
    also have "\<dots> = {call_key (rs ! j) | j. j < length rs \<and> j \<noteq> i \<and> pending (rs ! j)}"
      using assms(2) by (auto simp: nth_list_update) 
    finally show ?thesis .
  qed
  have old: "set (map call_key (filter pending rs))
      = {call_key (rs ! j) | j. j < length rs \<and> pending (rs ! j)}"
    by (auto simp: in_set_conv_nth) 
  have apart: "\<forall>j < length rs. j \<noteq> i \<longrightarrow> call_key (rs ! j) \<noteq> call_key (rs ! i)"
    using assms by (simp add: call_key_def)
  show ?thesis
    unfolding new old
  proof (intro set_eqI iffI)
    fix x
    assume "x \<in> {call_key (rs ! j) | j. j < length rs \<and> j \<noteq> i \<and> pending (rs ! j)}"
    then obtain j where j: "x = call_key (rs ! j)" "j < length rs" "j \<noteq> i" "pending (rs ! j)"
      by blast
    then have "x \<noteq> call_key (rs ! i)" using apart by simp
    then show "x \<in> {call_key (rs ! j) | j. j < length rs \<and> pending (rs ! j)}
        - {call_key (rs ! i)}"
      using j by blast
  next
    fix x
    assume "x \<in> {call_key (rs ! j) | j. j < length rs \<and> pending (rs ! j)}
        - {call_key (rs ! i)}"
    then obtain j where j: "x = call_key (rs ! j)" "j < length rs" "pending (rs ! j)"
      and ne: "x \<noteq> call_key (rs ! i)"
      by blast
    have "j \<noteq> i" using j(1) ne by auto
    then show "x \<in> {call_key (rs ! j) | j. j < length rs \<and> j \<noteq> i \<and> pending (rs ! j)}"
      using j by blast
  qed
qed

lemma readReport_calls:
  assumes "interrupted_event impl \<noteq> INVALID_HANDLE_VALUE"
  shows "\<exists>mid rs'.
      snd (snd (readReport os impl report timeout))
        = map (read_call report) (enumerate 0 (attempted os report (devices impl)))
          @ mid @ destroy_reads os rs'
      \<and> cancelled mid = [] \<and> read_files mid = [] \<and> started_pending os mid = []
      \<and> (finished mid = []
            \<and> rs' = map (read_of os) (enumerate 0 (attempted os report (devices impl)))
          \<or> (\<exists>i < length (attempted os report (devices impl)).
                finished mid
                  = [call_key (map (read_of os)
                       (enumerate 0 (attempted os report (devices impl))) ! i)]
                \<and> rs' = (map (read_of os) (enumerate 0 (attempted os report (devices impl))))
                     [i := (map (read_of os)
                        (enumerate 0 (attempted os report (devices impl))) ! i)
                        \<lparr>pending := False\<rparr>]))"
proof -
  let ?A = "attempted os report (devices impl)"
  let ?R = "map (read_of os) (enumerate 0 ?A)"
  let ?calls = "map (read_call report) (enumerate 0 ?A)"
  let ?X = "issue_reads os report (devices impl) [interrupted_event impl] [] []"
  let ?T = "snd (snd (readReport os impl report timeout))"
  let ?P = "\<lambda>mid rs'. ?T = ?calls @ mid @ destroy_reads os rs'
      \<and> cancelled mid = [] \<and> read_files mid = [] \<and> started_pending os mid = []
      \<and> (finished mid = [] \<and> rs' = ?R
          \<or> (\<exists>i < length ?A. finished mid = [call_key (?R ! i)]
                \<and> rs' = ?R[i := (?R ! i)\<lparr>pending := False\<rparr>]))"
  have shape: "issue_reads_of ?X = ?R" "issue_calls_of ?X = ?calls"
    using issue_reads_shape [of os report "devices impl" "[interrupted_event impl]" "[]" "[]"]
    by simp_all
  show ?thesis
  proof (cases ?X)
    case (Issue_throw e rs tr)
    then have "?P [] ?R"
      using shape assms by (simp add: readReport_def)
    then show ?thesis by blast
  next
    case (Issue_report_read data rs tr)
    then have "?P [Call_Log ''Recv HID report:''] ?R"
      using shape assms by (simp add: readReport_def report_read_def)
    then show ?thesis by blast
  next
    case (Issue_wait handles rs tr)
    then have rs: "rs = ?R" and tr: "tr = ?calls"
      using shape by simp_all
    obtain ret err where w:
      "os_WaitForMultipleObjects os handles (wait_milliseconds timeout) = (ret, err)"
      by (cases "os_WaitForMultipleObjects os handles (wait_milliseconds timeout)")
    let ?W = "Call_WaitForMultipleObjects handles (wait_milliseconds timeout)"
    let ?i = "unat (ret - WAIT_OBJECT_0 - 1)"
    let ?G = "Call_GetOverlappedResult (ar_file (?R ! ?i)) (overlapped (?R ! ?i)) False"
    let ?R' = "?R[?i := (?R ! ?i)\<lparr>pending := False\<rparr>]"
    consider (quiet) "ret = WAIT_OBJECT_0 \<or> ret = WAIT_TIMEOUT"
      | (failed) "ret \<noteq> WAIT_OBJECT_0" "ret \<noteq> WAIT_TIMEOUT" "ret = WAIT_FAILED"
      | (range) "ret \<noteq> WAIT_OBJECT_0" "ret \<noteq> WAIT_TIMEOUT" "ret \<noteq> WAIT_FAILED"
          "length rs \<le> ?i"
      | (finish) "ret \<noteq> WAIT_OBJECT_0" "ret \<noteq> WAIT_TIMEOUT" "ret \<noteq> WAIT_FAILED"
          "?i < length rs"
      by fastforce
    then show ?thesis
    proof cases
      case quiet
      then have "?P [?W] ?R"
        using Issue_wait w rs tr assms by (auto simp: readReport_def)
      then show ?thesis by blast
    next
      case failed
      then have "?P [?W] ?R"
        using Issue_wait w rs tr assms by (simp add: readReport_def)
      then show ?thesis by blast
    next
      case range
      then have "?P [?W] ?R"
        using Issue_wait w rs tr assms by (simp add: readReport_def)
      then show ?thesis by blast
    next
      case finish
      have i: "?i < length ?A" using finish(4) rs by simp
      show ?thesis
      proof (cases "os_GetOverlappedResult os (ar_file (?R ! ?i))")
        case (Inl err')
        have "?T = ?calls @ [?W, ?G] @ destroy_reads os ?R'"
          using Issue_wait w finish assms Inl
          by (simp add: readReport_def rs [symmetric] tr [symmetric])
        then have "?P [?W, ?G] ?R'"
          using i by (auto simp: call_key_def)
        then show ?thesis by blast
      next
        case (Inr data)
        have "?T = ?calls @ [?W, ?G, Call_Log ''Recv HID report:''] @ destroy_reads os ?R'"
          using Issue_wait w finish assms Inr
          by (simp add: readReport_def report_read_def rs [symmetric] tr [symmetric])
        then have "?P [?W, ?G, Call_Log ''Recv HID report:''] ?R'"
          using i by (auto simp: call_key_def)
        then show ?thesis by blast
      qed
    qed
  qed
qed

lemma example_timeout_calls:
  "readReport (example_os WAIT_TIMEOUT) example_impl (replicate 16 0) 100
   = (Inr 0, replicate 16 0,
      [Call_ReadFile 1 0 16, Call_ReadFile 3 1 16,
       Call_WaitForMultipleObjects [5, 2, 4] 100,
       Call_CancelIoEx 1 0, Call_CancelIoEx 3 1])"
  by (simp add: readReport_def example_impl_def example_os_def zero_HIDP_CAPS_def
      INVALID_HANDLE_VALUE_def wait_milliseconds_def word_sless_alt destroy_reads_def
      AsyncRead_dtor_def WAIT_OBJECT_0_def WAIT_TIMEOUT_def)

lemma attempted_sync:
  "dev \<in> set (attempted os report devs) \<Longrightarrow> os_ReadFile os (file' dev) = ReadFile_TRUE data
   \<Longrightarrow> \<exists>rs' tr'. issue_reads os report devs handles rs tr = Issue_report_read data rs' tr'"
proof (induction devs arbitrary: handles rs tr)
  case Nil
  then show ?case by simp
next
  case (Cons d rest)
  show ?case
  proof (cases "fits report d")
    case False
    then show ?thesis using Cons by (simp add: fits_def)
  next
    case True
    show ?thesis
    proof (cases "os_ReadFile os (file' d) = ReadFile_FALSE ERROR_IO_PENDING")
      case pend: True
      then have "dev \<noteq> d" using Cons.prems(2) by auto
      then have "dev \<in> set (attempted os report rest)"
        using Cons.prems(1) True pend by simp
      then show ?thesis
        using Cons.IH Cons.prems(2) True pend by (simp add: fits_def)
    next
      case False
      then have "dev = d" using Cons.prems(1) True by simp
      then show ?thesis using Cons.prems(2) True by (simp add: fits_def)
    qed
  qed
qed

lemma attempted_all_pending:
  "\<forall>dev \<in> set (filter (fits report) devs).
      os_ReadFile os (file' dev) = ReadFile_FALSE ERROR_IO_PENDING
   \<Longrightarrow> attempted os report devs = filter (fits report) devs"
  by (induction devs) simp_all

lemma report_read_result:
  "fst (report_read os data report rs tr) = Inr (sint (word_of_nat (length data) :: DWORD))
   \<and> length (fst (snd (report_read os data report rs tr)))
       = unat (word_of_nat (length data) :: DWORD)
   \<and> (length data < 2 ^ 31
        \<longrightarrow> fst (report_read os data report rs tr) = Inr (int (length data))
          \<and> fst (snd (report_read os data report rs tr)) = data)"
proof -
  have small: "fst (report_read os data report rs tr) = Inr (int (length data))
      \<and> fst (snd (report_read os data report rs tr)) = data"
    if "length data < 2 ^ 31"
  proof -
    have u: "unat (word_of_nat (length data) :: DWORD) = length data"
      using that by (simp add: unat_of_nat)
    have "int (length data) < 2 ^ 31"
      using that by (metis of_nat_less_iff of_nat_numeral of_nat_power)
    then have "signed_take_bit 31 (int (length data)) = int (length data)"
      by (simp add: signed_take_bit_int_eq_self)
    then have s: "sint (word_of_nat (length data) :: DWORD) = int (length data)"
      by (simp add: signed_of_nat)
    show ?thesis using u s by (simp add: report_read_def resize_written)
  qed
  show ?thesis using small by (simp add: report_read_def)
qed

lemma example_sync_calls:
  "readReport example_os_sync example_impl (replicate 16 0) 100
   = (Inr 2, [1, 9], [Call_ReadFile 1 0 16, Call_Log ''Recv HID report:''])"
  by (simp add: readReport_def report_read_def resize_def example_impl_def example_os_sync_def
      example_os_def zero_HIDP_CAPS_def INVALID_HANDLE_VALUE_def destroy_reads_def
      AsyncRead_dtor_def)

lemma example_fits:
  "filter (fits (replicate 16 0)) (devices example_impl) = devices example_impl"
  "map file' (devices example_impl) = [1, 3]"
  by (simp_all add: fits_def example_impl_def zero_HIDP_CAPS_def)

section \<open>Lemmas about the constructors\<close>

lemma enumerate_interfaces_skip_unopened:
  assumes "fst (os_CreateFile dev) = INVALID_HANDLE_VALUE"
  shows "enumerate_interfaces parent_inst (before @ dev # after) first d
         = enumerate_interfaces parent_inst (before @ after) first d"
proof (induction before arbitrary: first d)
  case Nil
  show ?case using assms by (cases "os_CreateFile dev"; cases "parentInst dev") simp
next
  case (Cons a before)
  show ?case by (simp add: Cons split: prod.splits sum.splits)
qed

lemma reopen_devices_shape:
  "reopen_devices os devs acc = Inr devs'
   \<Longrightarrow> length devs' = length acc + length devs
     \<and> (\<forall>dev \<in> set devs'. dev \<in> set acc \<or> caps dev = zero_HIDP_CAPS)"
proof (induction devs arbitrary: acc)
  case Nil
  then show ?case by simp
next
  case (Cons dev rest)
  obtain hdev err where r: "os_ReOpenFile os (file' dev) = (hdev, err)"
    by (cases "os_ReOpenFile os (file' dev)")
  obtain ev err' where c: "os_CreateEvent_for os (file' dev) = (ev, err')"
    by (cases "os_CreateEvent_for os (file' dev)")
  have rec: "reopen_devices os rest
      (acc @ [\<lparr>file' = hdev, event = ev, caps = zero_HIDP_CAPS\<rparr>]) = Inr devs'"
    using Cons.prems r c by (simp split: if_splits)
  show ?case using Cons.IH [OF rec] by auto
qed

lemma keys_add_field:
  "fst ` set (reports (add_field t cap c)) = insert (report_key t cap) (fst ` set (reports c))"
  by (simp add: add_field_def fst_set_emplace_field)

lemma keys_fold_add_field:
  "fst ` set (reports (fold (add_field t) cs c))
   = fst ` set (reports c) \<union> report_key t ` set cs"
  by (induction cs arbitrary: c) (auto simp: keys_add_field)

lemma keys_add_fields_ordered:
  "fst ` set (reports (add_fields_ordered t bs vs c))
   = fst ` set (reports c) \<union> report_key t ` (set bs \<union> set vs)"
  by (simp add: add_fields_ordered_fold keys_fold_add_field set_merge_by_DataIndex)

lemma query_caps_Inr: "query_caps what n answer = Inr cs \<Longrightarrow> caps_of n answer = cs"
  by (auto simp: query_caps_def caps_of_def split: if_splits option.splits)

lemma keys_add_report_types:
  "add_report_types dev counts c = Inr c'
   \<Longrightarrow> fst ` set (reports c')
       = fst ` set (reports c) \<union> (\<lambda>tc. report_key (fst tc) (snd tc)) ` set (caps_read dev counts)"
proof (induction dev counts c rule: add_report_types.induct)
  case (1 dev collection)
  then show ?case by simp
next
  case (2 dev report_type button_count value_count rest collection)
  from "2.prems" obtain bs where
    bs: "query_caps ''HidP_GetButtonCaps failed'' button_count
           (os_GetButtonCaps dev report_type) = Inr bs"
    by (auto split: sum.splits)
  from "2.prems" bs obtain vs where
    vs: "query_caps ''HidP_GetValueCaps failed'' value_count
           (os_GetValueCaps dev report_type) = Inr vs"
    by (auto split: sum.splits)
  have rec: "add_report_types dev rest (add_fields_ordered report_type bs vs collection)
             = Inr c'"
    using "2.prems" bs vs by simp
  have "fst ` set (reports c')
      = fst ` set (reports (add_fields_ordered report_type bs vs collection))
        \<union> (\<lambda>tc. report_key (fst tc) (snd tc)) ` set (caps_read dev rest)"
    using "2.IH" [OF bs vs rec] .
  then show ?case
    using query_caps_Inr [OF bs] query_caps_Inr [OF vs]
    by (auto simp: keys_add_fields_ordered image_Un image_image)
qed

lemma add_report_types_succeeds:
  "caps_queries_succeed dev counts \<Longrightarrow> \<exists>c'. add_report_types dev counts c = Inr c'"
  by (induction dev counts c rule: add_report_types.induct)
     (auto simp: query_caps_def split: sum.splits option.splits)

lemma route_reports_Inr:
  "route_reports hdev ks m = Inr m'
   \<Longrightarrow> (\<forall>k \<in> set ks. m' (ucast (id' k)) = Some hdev)
     \<and> (\<forall>r h. m r = Some h \<longrightarrow> m' r = Some h)"
proof (induction ks arbitrary: m)
  case Nil
  then show ?case by simp
next
  case (Cons k ks)
  show ?case
  proof (cases "m (ucast (id' k))")
    case None
    then have rec: "route_reports hdev ks (m(ucast (id' k) \<mapsto> hdev)) = Inr m'"
      using Cons.prems by simp
    have keep: "\<forall>r h. m r = Some h \<longrightarrow> (m(ucast (id' k) \<mapsto> hdev)) r = Some h"
      using None by auto
    have new: "(m(ucast (id' k) \<mapsto> hdev)) (ucast (id' k)) = Some hdev"
      by simp
    note IH = Cons.IH [OF rec]
    have "m' (ucast (id' k)) = Some hdev"
      using IH new by blast
    moreover have "\<forall>r h. m r = Some h \<longrightarrow> m' r = Some h"
      using IH keep by blast
    ultimately show ?thesis using IH by simp
  next
    case (Some h)
    then have h: "h = hdev" and rec: "route_reports hdev ks m = Inr m'"
      using Cons.prems by (auto split: if_splits)
    show ?thesis using Cons.IH [OF rec] Some h by auto
  qed
qed

lemma route_reports_Inl:
  "route_reports hdev ks m = Inl e
   \<Longrightarrow> e = runtime_error ''Same Report ID on different handle.''"
  by (induction ks arbitrary: m) (auto split: option.splits if_splits)

lemma read_attributes_p: "read_attributes dev d = Inr d1 \<Longrightarrow> p d1 = p d"
  by (auto simp: read_attributes_def split: sum.splits prod.splits)

lemma read_attributes_succeeds:
  "\<not> isl (os_GetAttributes dev) \<Longrightarrow> \<not> isl (os_GetManufacturerString dev)
   \<Longrightarrow> \<not> isl (os_GetProductString dev) \<Longrightarrow> \<exists>d1. read_attributes dev d = Inr d1"
  by (auto simp: read_attributes_def split: sum.splits prod.splits)

lemma add_interface_Inr:
  assumes "add_interface dev hdev first d = Inr d'"
  shows "(\<forall>r h. routes (p d) r = Some h \<longrightarrow> routes (p d') r = Some h)
    \<and> (\<forall>k \<in> set (declared dev). routes (p d') (ucast (id' k)) = Some hdev)"
proof -
  obtain ev err where ev: "os_CreateEvent dev = (ev, err)"
    by (cases "os_CreateEvent dev")
  obtain d1 where d1: "(if first then read_attributes dev d else Inr d) = Inr d1"
    using assms ev by (auto simp: add_interface_def split: if_splits sum.splits)
  have pd1: "p d1 = p d"
    using d1 read_attributes_p by (auto split: if_splits)
  obtain hc where hc: "os_GetCaps dev = Some hc"
    using assms ev d1 by (auto simp: add_interface_def split: if_splits option.splits)
  obtain collection where col: "add_report_types dev (report_type_counts hc)
      \<lparr>ctype = Physical, usage = push_bit 16 (ucast (UsagePage hc)) OR ucast (Usage hc),
       reports = []\<rparr> = Inr collection"
    using assms ev d1 hc
    by (auto simp: add_interface_def split: if_splits option.splits sum.splits)
  obtain routes' where rt: "route_reports hdev (map fst (reports collection)) (routes (p d1))
      = Inr routes'"
    using assms ev d1 hc col
    by (auto simp: add_interface_def split: if_splits option.splits sum.splits)
  have d': "routes (p d') = routes'"
    using assms ev d1 hc col rt
    by (auto simp: add_interface_def split: if_splits option.splits)
  have keys: "set (declared dev) = fst ` set (reports collection)"
    using keys_add_report_types [OF col] hc by (simp add: declared_def)
  show ?thesis
    using route_reports_Inr [OF rt] keys by (simp add: d' pd1)
qed

lemma add_interface_Inl:
  assumes "queries_succeed dev" and "add_interface dev hdev first d = Inl e"
  shows "e = runtime_error ''Same Report ID on different handle.''"
proof -
  obtain ev err where ev: "os_CreateEvent dev = (ev, err)"
    by (cases "os_CreateEvent dev")
  have evok: "ev \<noteq> INVALID_HANDLE_VALUE"
    using assms(1) ev by (simp add: queries_succeed_def)
  have "\<exists>d1. read_attributes dev d = Inr d1"
    using assms(1) by (simp add: queries_succeed_def read_attributes_succeeds)
  then obtain d1 where d1: "(if first then read_attributes dev d else Inr d) = Inr d1"
    by (cases first) auto
  have pp: "os_GetPreparsedData dev = None"
    using assms(1) by (simp add: queries_succeed_def)
  obtain hc where hc: "os_GetCaps dev = Some hc"
    and ok: "caps_queries_succeed dev (report_type_counts hc)"
    using assms(1) by (auto simp: queries_succeed_def split: option.splits)
  obtain collection where col: "add_report_types dev (report_type_counts hc)
      \<lparr>ctype = Physical, usage = push_bit 16 (ucast (UsagePage hc)) OR ucast (Usage hc),
       reports = []\<rparr> = Inr collection"
    using add_report_types_succeeds [OF ok] by blast
  have "route_reports hdev (map fst (reports collection)) (routes (p d1)) = Inl e"
    using assms(2) ev evok d1 pp hc col
    by (auto simp: add_interface_def split: sum.splits)
  then show ?thesis by (rule route_reports_Inl)
qed

lemma enumerate_interfaces_Inr:
  "enumerate_interfaces parent_inst devs first d = Inr d'
   \<Longrightarrow> (\<forall>r h. routes (p d) r = Some h \<longrightarrow> routes (p d') r = Some h)
     \<and> (\<forall>dev \<in> set devs. opened parent_inst dev
          \<longrightarrow> (\<forall>k \<in> set (declared dev).
                 routes (p d') (ucast (id' k)) = Some (fst (os_CreateFile dev))))"
proof (induction devs arbitrary: first d)
  case Nil
  then show ?case by simp
next
  case (Cons dev rest)
  show ?case
  proof (cases "opened parent_inst dev")
    case False
    then have rec: "enumerate_interfaces parent_inst rest first d = Inr d'"
      using Cons.prems
      by (cases "parentInst dev"; cases "os_CreateFile dev")
         (auto simp: opened_def selected_def split: if_splits)
    show ?thesis using Cons.IH [OF rec] False by simp
  next
    case True
    obtain hdev err where cf: "os_CreateFile dev = (hdev, err)"
      by (cases "os_CreateFile dev")
    have sel: "parentInst dev = (True, parent_inst)" and hv: "hdev \<noteq> INVALID_HANDLE_VALUE"
      using True cf by (cases "parentInst dev"; simp add: opened_def selected_def)+
    obtain d1 where a: "add_interface dev hdev first d = Inr d1"
      and rec: "enumerate_interfaces parent_inst rest False d1 = Inr d'"
      using Cons.prems cf sel hv by (auto split: sum.splits)
    note A = add_interface_Inr [OF a]
    note R = Cons.IH [OF rec]
    have mono: "\<forall>r h. routes (p d) r = Some h \<longrightarrow> routes (p d') r = Some h"
      using A R by blast
    have here: "\<forall>k \<in> set (declared dev). routes (p d') (ucast (id' k)) = Some hdev"
      using A R by blast
    show ?thesis using mono here R cf by simp
  qed
qed

lemma enumerate_interfaces_Inl:
  "\<forall>dev \<in> set devs. opened parent_inst dev \<longrightarrow> queries_succeed dev
   \<Longrightarrow> enumerate_interfaces parent_inst devs first d = Inl e
   \<Longrightarrow> e = runtime_error ''Same Report ID on different handle.''"
proof (induction devs arbitrary: first d)
  case Nil
  then show ?case by simp
next
  case (Cons dev rest)
  have ok_rest: "\<forall>dev \<in> set rest. opened parent_inst dev \<longrightarrow> queries_succeed dev"
    using Cons.prems(1) by simp
  show ?case
  proof (cases "opened parent_inst dev")
    case False
    then have rec: "enumerate_interfaces parent_inst rest first d = Inl e"
      using Cons.prems(2)
      by (cases "parentInst dev"; cases "os_CreateFile dev")
         (auto simp: opened_def selected_def split: if_splits)
    show ?thesis using Cons.IH [OF ok_rest rec] .
  next
    case True
    obtain hdev err where cf: "os_CreateFile dev = (hdev, err)"
      by (cases "os_CreateFile dev")
    have sel: "parentInst dev = (True, parent_inst)" and hv: "hdev \<noteq> INVALID_HANDLE_VALUE"
      using True cf by (cases "parentInst dev"; simp add: opened_def selected_def)+
    have q: "queries_succeed dev" using Cons.prems(1) True by simp
    show ?thesis
    proof (cases "add_interface dev hdev first d")
      case (Inl e')
      then have "e' = e" using Cons.prems(2) cf sel hv by simp
      then show ?thesis using add_interface_Inl [OF q Inl] by simp
    next
      case (Inr d1)
      then have rec: "enumerate_interfaces parent_inst rest False d1 = Inl e"
        using Cons.prems(2) cf sel hv by simp
      show ?thesis using Cons.IH [OF ok_rest rec] .
    qed
  qed
qed

lemma example_interface_facts:
  "opened 7 (example_interface h r) = (h \<noteq> INVALID_HANDLE_VALUE)"
  "queries_succeed (example_interface h r) = (h + 1 \<noteq> INVALID_HANDLE_VALUE)"
  "declared (example_interface h r)
     = [\<lparr>type' = Input, id' = ucast r\<rparr>]"
  "fst (os_CreateFile (example_interface h r)) = h"
  by (simp_all add: opened_def selected_def queries_succeed_def declared_def
      example_interface_def report_type_counts_def zero_HIDP_CAPS_def caps_of_def
      query_caps_def fill_caps_def report_key_def example_cap_def zero_HIDP_CAP_def)

section \<open>The outcomes of a wait in readReport\<close>

text \<open>
  C1, as \<^verbatim>\<open>readReport\<close> has it. A call that reaches the wait (the loop has left every
  read it started pending) waits once, on the interrupt event followed by the event of
  each read, with \<^verbatim>\<open>INFINITE\<close> when the timeout is negative and with the caller's timeout
  otherwise. Of the return value of the wait exactly one of four things holds: it is the
  timeout, it is the interrupt event, it is the event of one read of the vector, or the
  wait has failed or names no read. On the timeout and on the interrupt the call returns
  0, leaves the buffer as it was and queries no read. On the event of a read the call
  queries exactly that read; when the query succeeds the call returns the number of bytes
  transferred and resizes the buffer to that number, the buffer being then the bytes
  read; when the query fails the call throws a \<^verbatim>\<open>std::system_error\<close> with the error code
  of the query and leaves the buffer as it was. In the fourth case the call throws,
  queries no read and leaves the buffer as it was. The claim says that a signalled read
  always ends in the count and the truncated buffer.
\<close>

theorem readReport_wait_outcomes:
  assumes "interrupted_event impl \<noteq> INVALID_HANDLE_VALUE"
    and "issue_reads os report (devices impl) [interrupted_event impl] [] []
         = Issue_wait handles rs tr"
    and "os_WaitForMultipleObjects os handles (wait_milliseconds timeout) = (ret, err)"
  shows "handles = interrupted_event impl # map hEvent rs
    \<and> waits (snd (snd (readReport os impl report timeout)))
        = [(handles, wait_milliseconds timeout)]
    \<and> wait_milliseconds timeout = (if timeout <s 0 then INFINITE else timeout)
    \<and> (ret = WAIT_TIMEOUT \<or> ret = WAIT_OBJECT_0
         \<longrightarrow> fst (readReport os impl report timeout) = Inr 0
           \<and> fst (snd (readReport os impl report timeout)) = report
           \<and> finished (snd (snd (readReport os impl report timeout))) = [])
    \<and> (ret \<noteq> WAIT_OBJECT_0 \<and> ret \<noteq> WAIT_TIMEOUT \<and> ret \<noteq> WAIT_FAILED
           \<and> unat (ret - WAIT_OBJECT_0 - 1) < length rs
         \<longrightarrow> handles ! unat ret = hEvent (rs ! unat (ret - WAIT_OBJECT_0 - 1))
           \<and> finished (snd (snd (readReport os impl report timeout)))
               = [(ar_file (rs ! unat (ret - WAIT_OBJECT_0 - 1)),
                   overlapped (rs ! unat (ret - WAIT_OBJECT_0 - 1)))]
           \<and> (\<forall>data. os_GetOverlappedResult os
                         (ar_file (rs ! unat (ret - WAIT_OBJECT_0 - 1))) = Inr data
                \<longrightarrow> fst (readReport os impl report timeout)
                      = Inr (sint (word_of_nat (length data) :: DWORD))
                  \<and> length (fst (snd (readReport os impl report timeout)))
                      = unat (word_of_nat (length data) :: DWORD)
                  \<and> (length data < 2 ^ 31
                       \<longrightarrow> fst (readReport os impl report timeout) = Inr (int (length data))
                         \<and> fst (snd (readReport os impl report timeout)) = data))
           \<and> (\<forall>e. os_GetOverlappedResult os
                      (ar_file (rs ! unat (ret - WAIT_OBJECT_0 - 1))) = Inl e
                \<longrightarrow> fst (readReport os impl report timeout)
                      = Inl (system_error e ''GetOverlappedResult'')
                  \<and> fst (snd (readReport os impl report timeout)) = report))
    \<and> (ret = WAIT_FAILED
         \<or> (ret \<noteq> WAIT_OBJECT_0 \<and> ret \<noteq> WAIT_TIMEOUT
             \<and> length rs \<le> unat (ret - WAIT_OBJECT_0 - 1))
         \<longrightarrow> isl (fst (readReport os impl report timeout))
           \<and> fst (snd (readReport os impl report timeout)) = report
           \<and> finished (snd (snd (readReport os impl report timeout))) = [])
    \<and> (ret = WAIT_TIMEOUT \<or> ret = WAIT_OBJECT_0
         \<or> (ret \<noteq> WAIT_OBJECT_0 \<and> ret \<noteq> WAIT_TIMEOUT \<and> ret \<noteq> WAIT_FAILED
             \<and> unat (ret - WAIT_OBJECT_0 - 1) < length rs)
         \<or> (ret = WAIT_FAILED
             \<or> (ret \<noteq> WAIT_OBJECT_0 \<and> ret \<noteq> WAIT_TIMEOUT
                 \<and> length rs \<le> unat (ret - WAIT_OBJECT_0 - 1))))
    \<and> \<not> (ret = WAIT_TIMEOUT \<and> ret = WAIT_OBJECT_0)
    \<and> \<not> ((ret = WAIT_TIMEOUT \<or> ret = WAIT_OBJECT_0)
           \<and> (ret \<noteq> WAIT_OBJECT_0 \<and> ret \<noteq> WAIT_TIMEOUT \<and> ret \<noteq> WAIT_FAILED
                \<and> unat (ret - WAIT_OBJECT_0 - 1) < length rs))
    \<and> \<not> ((ret = WAIT_TIMEOUT \<or> ret = WAIT_OBJECT_0)
           \<and> (ret = WAIT_FAILED
                \<or> (ret \<noteq> WAIT_OBJECT_0 \<and> ret \<noteq> WAIT_TIMEOUT
                    \<and> length rs \<le> unat (ret - WAIT_OBJECT_0 - 1))))
    \<and> \<not> ((ret \<noteq> WAIT_OBJECT_0 \<and> ret \<noteq> WAIT_TIMEOUT \<and> ret \<noteq> WAIT_FAILED
            \<and> unat (ret - WAIT_OBJECT_0 - 1) < length rs)
           \<and> (ret = WAIT_FAILED
                \<or> (ret \<noteq> WAIT_OBJECT_0 \<and> ret \<noteq> WAIT_TIMEOUT
                    \<and> length rs \<le> unat (ret - WAIT_OBJECT_0 - 1))))"
proof -
  let ?i = "unat (ret - WAIT_OBJECT_0 - 1)"
  let ?R = "readReport os impl report timeout"
  note shape = issue_wait_calls [OF assms(2)]
  have hs: "handles = interrupted_event impl # map hEvent rs"
    using shape(3) by simp
  have tr: "waits tr = []" "finished tr = []"
    using shape(1) by simp_all
  have w: "waits (snd (snd ?R)) = [(handles, wait_milliseconds timeout)]"
    using assms tr
    by (simp add: readReport_def report_read_def split: sum.splits)
  have ms: "wait_milliseconds timeout = (if timeout <s 0 then INFINITE else timeout)"
    by (simp add: wait_milliseconds_def)
  have quiet: "fst ?R = Inr 0 \<and> fst (snd ?R) = report \<and> finished (snd (snd ?R)) = []"
    if "ret = WAIT_TIMEOUT \<or> ret = WAIT_OBJECT_0"
    using that assms tr by (auto simp: readReport_def)
  have wrong: "isl (fst ?R) \<and> fst (snd ?R) = report \<and> finished (snd (snd ?R)) = []"
    if "ret = WAIT_FAILED
        \<or> (ret \<noteq> WAIT_OBJECT_0 \<and> ret \<noteq> WAIT_TIMEOUT \<and> length rs \<le> ?i)"
    using that assms tr WAIT_consts_distinct by (auto simp: readReport_def)
  have compl: "handles ! unat ret = hEvent (rs ! ?i)
      \<and> finished (snd (snd ?R)) = [(ar_file (rs ! ?i), overlapped (rs ! ?i))]
      \<and> (\<forall>data. os_GetOverlappedResult os (ar_file (rs ! ?i)) = Inr data
           \<longrightarrow> fst ?R = Inr (sint (word_of_nat (length data) :: DWORD))
             \<and> length (fst (snd ?R)) = unat (word_of_nat (length data) :: DWORD)
             \<and> (length data < 2 ^ 31
                  \<longrightarrow> fst ?R = Inr (int (length data)) \<and> fst (snd ?R) = data))
      \<and> (\<forall>e. os_GetOverlappedResult os (ar_file (rs ! ?i)) = Inl e
           \<longrightarrow> fst ?R = Inl (system_error e ''GetOverlappedResult'')
             \<and> fst (snd ?R) = report)"
    if c: "ret \<noteq> WAIT_OBJECT_0 \<and> ret \<noteq> WAIT_TIMEOUT \<and> ret \<noteq> WAIT_FAILED
        \<and> ?i < length rs"
  proof -
    have "ret \<noteq> 0" using c by (simp add: WAIT_OBJECT_0_def)
    then have "unat (ret - 1) = unat ret - 1" and "0 < unat ret"
      by (simp_all add: unat_minus_one unat_gt_0)
    then have "unat ret = Suc ?i"
      by (simp add: WAIT_OBJECT_0_def)
    then have idx: "handles ! unat ret = hEvent (rs ! ?i)"
      using hs c by simp
    have good: "fst ?R = Inr (sint (word_of_nat (length data) :: DWORD))
        \<and> length (fst (snd ?R)) = unat (word_of_nat (length data) :: DWORD)
        \<and> (length data < 2 ^ 31
             \<longrightarrow> fst ?R = Inr (int (length data)) \<and> fst (snd ?R) = data)
        \<and> finished (snd (snd ?R)) = [(ar_file (rs ! ?i), overlapped (rs ! ?i))]"
      if q: "os_GetOverlappedResult os (ar_file (rs ! ?i)) = Inr data" for data
    proof -
      have rr: "?R = report_read os data report
            (rs[?i := (rs ! ?i)\<lparr>pending := False\<rparr>])
            (tr @ [Call_WaitForMultipleObjects handles (wait_milliseconds timeout),
                   Call_GetOverlappedResult (ar_file (rs ! ?i)) (overlapped (rs ! ?i)) False])"
        using assms c q by (simp add: readReport_def)
      have f: "finished (snd (snd ?R)) = [(ar_file (rs ! ?i), overlapped (rs ! ?i))]"
        using tr by (simp add: rr report_read_def)
      show ?thesis
        unfolding rr using report_read_result f [unfolded rr] by blast
    qed
    have bad: "fst ?R = Inl (system_error e ''GetOverlappedResult'')
        \<and> fst (snd ?R) = report
        \<and> finished (snd (snd ?R)) = [(ar_file (rs ! ?i), overlapped (rs ! ?i))]"
      if q: "os_GetOverlappedResult os (ar_file (rs ! ?i)) = Inl e" for e
      using assms c q tr by (simp add: readReport_def)
    have f: "finished (snd (snd ?R)) = [(ar_file (rs ! ?i), overlapped (rs ! ?i))]"
      using good bad by (cases "os_GetOverlappedResult os (ar_file (rs ! ?i))") blast+
    show ?thesis using idx f good bad by blast
  qed
  have cover: "ret = WAIT_TIMEOUT \<or> ret = WAIT_OBJECT_0
      \<or> (ret \<noteq> WAIT_OBJECT_0 \<and> ret \<noteq> WAIT_TIMEOUT \<and> ret \<noteq> WAIT_FAILED \<and> ?i < length rs)
      \<or> (ret = WAIT_FAILED
          \<or> (ret \<noteq> WAIT_OBJECT_0 \<and> ret \<noteq> WAIT_TIMEOUT \<and> length rs \<le> ?i))"
    by (cases "?i < length rs") auto
  have x1: "\<not> (ret = WAIT_TIMEOUT \<and> ret = WAIT_OBJECT_0)"
    using WAIT_consts_distinct by auto
  have x2: "\<not> ((ret = WAIT_TIMEOUT \<or> ret = WAIT_OBJECT_0)
      \<and> (ret \<noteq> WAIT_OBJECT_0 \<and> ret \<noteq> WAIT_TIMEOUT \<and> ret \<noteq> WAIT_FAILED
           \<and> ?i < length rs))"
    by auto
  have x3: "\<not> ((ret = WAIT_TIMEOUT \<or> ret = WAIT_OBJECT_0)
      \<and> (ret = WAIT_FAILED
           \<or> (ret \<noteq> WAIT_OBJECT_0 \<and> ret \<noteq> WAIT_TIMEOUT \<and> length rs \<le> ?i)))"
    using WAIT_consts_distinct by auto
  have x4: "\<not> ((ret \<noteq> WAIT_OBJECT_0 \<and> ret \<noteq> WAIT_TIMEOUT \<and> ret \<noteq> WAIT_FAILED
        \<and> ?i < length rs)
      \<and> (ret = WAIT_FAILED
           \<or> (ret \<noteq> WAIT_OBJECT_0 \<and> ret \<noteq> WAIT_TIMEOUT \<and> length rs \<le> ?i)))"
    by auto
  show ?thesis
    by (intro conjI impI) (use hs w ms quiet compl wrong cover x1 x2 x3 x4 in blast)+
qed

theorem readReport_wait_outcomes_witness:
  "interrupted_event example_impl \<noteq> INVALID_HANDLE_VALUE
   \<and> issue_reads (example_os 2) (replicate 16 0) (devices example_impl)
        [interrupted_event example_impl] [] []
      = Issue_wait [5, 2, 4]
          [\<lparr>ar_file = 1, overlapped = 0, hEvent = 2, pending = True\<rparr>,
           \<lparr>ar_file = 3, overlapped = 1, hEvent = 4, pending = True\<rparr>]
          [Call_ReadFile 1 0 16, Call_ReadFile 3 1 16]
   \<and> os_WaitForMultipleObjects (example_os 2) [5, 2, 4] (wait_milliseconds (- 1)) = (2, 6)
   \<and> os_GetOverlappedResult (example_os 2) 3 = Inr [2, 17, 34]
   \<and> waits (snd (snd (readReport (example_os 2) example_impl (replicate 16 0) (- 1))))
      = [([5, 2, 4], INFINITE)]
   \<and> fst (readReport (example_os 2) example_impl (replicate 16 0) (- 1)) = Inr 3
   \<and> fst (snd (readReport (example_os 2) example_impl (replicate 16 0) (- 1))) = [2, 17, 34]
   \<and> finished (snd (snd (readReport (example_os 2) example_impl (replicate 16 0) (- 1))))
      = [(3, 1)]
   \<and> os_WaitForMultipleObjects (example_os WAIT_TIMEOUT) [5, 2, 4] (wait_milliseconds 100)
      = (WAIT_TIMEOUT, 6)
   \<and> waits (snd (snd
        (readReport (example_os WAIT_TIMEOUT) example_impl (replicate 16 0) 100)))
      = [([5, 2, 4], 100)]
   \<and> fst (readReport (example_os WAIT_TIMEOUT) example_impl (replicate 16 0) 100) = Inr 0
   \<and> fst (snd (readReport (example_os WAIT_TIMEOUT) example_impl (replicate 16 0) 100))
      = replicate 16 0"
proof -
  have h1: "interrupted_event example_impl \<noteq> INVALID_HANDLE_VALUE"
    by (simp add: example_impl_def INVALID_HANDLE_VALUE_def)
  have h2: "issue_reads (example_os ret) (replicate 16 0) (devices example_impl)
        [interrupted_event example_impl] [] []
      = Issue_wait [5, 2, 4]
          [\<lparr>ar_file = 1, overlapped = 0, hEvent = 2, pending = True\<rparr>,
           \<lparr>ar_file = 3, overlapped = 1, hEvent = 4, pending = True\<rparr>]
          [Call_ReadFile 1 0 16, Call_ReadFile 3 1 16]" for ret
    by (simp add: example_impl_def example_os_def zero_HIDP_CAPS_def)
  have h3: "os_WaitForMultipleObjects (example_os 2) [5, 2, 4] (wait_milliseconds (- 1))
      = (2, 6)"
    by (simp add: example_os_def)
  have h3': "os_WaitForMultipleObjects (example_os WAIT_TIMEOUT) [5, 2, 4]
      (wait_milliseconds 100) = (WAIT_TIMEOUT, 6)"
    by (simp add: example_os_def)
  have ms: "wait_milliseconds (- 1) = INFINITE" "wait_milliseconds 100 = 100"
    by (simp_all add: wait_milliseconds_def word_sless_alt)
  have pre: "(2 :: DWORD) \<noteq> WAIT_OBJECT_0 \<and> (2 :: DWORD) \<noteq> WAIT_TIMEOUT
      \<and> (2 :: DWORD) \<noteq> WAIT_FAILED
      \<and> unat ((2 :: DWORD) - WAIT_OBJECT_0 - 1) = 1"
    by (simp add: WAIT_OBJECT_0_def WAIT_TIMEOUT_def WAIT_FAILED_def)
  have q: "os_GetOverlappedResult (example_os 2) 3 = Inr [2, 17, 34]"
    by (simp add: example_os_def)
  note done2 = readReport_wait_outcomes [OF h1 h2 h3]
  note timed = readReport_wait_outcomes [OF h1 h2 h3']
  have a: "waits (snd (snd (readReport (example_os 2) example_impl (replicate 16 0) (- 1))))
      = [([5, 2, 4], INFINITE)]"
    using done2 ms by simp
  have b: "fst (readReport (example_os 2) example_impl (replicate 16 0) (- 1)) = Inr 3
      \<and> fst (snd (readReport (example_os 2) example_impl (replicate 16 0) (- 1)))
        = [2, 17, 34]
      \<and> finished (snd (snd (readReport (example_os 2) example_impl (replicate 16 0) (- 1))))
        = [(3, 1)]"
    using done2 pre q by simp
  have c: "waits (snd (snd
        (readReport (example_os WAIT_TIMEOUT) example_impl (replicate 16 0) 100)))
      = [([5, 2, 4], 100)]"
    using timed ms by simp
  have d: "fst (readReport (example_os WAIT_TIMEOUT) example_impl (replicate 16 0) 100) = Inr 0
      \<and> fst (snd (readReport (example_os WAIT_TIMEOUT) example_impl (replicate 16 0) 100))
        = replicate 16 0"
    using timed by simp
  show ?thesis using h1 h2 [of 2] h3 h3' q a b c d by blast
qed

text \<open>
  The claim fails on the example device when the event of interface B is signalled and
  the query of that read fails: the call throws, returns no count, and the buffer keeps
  its 16 bytes.
\<close>

theorem readReport_query_fails_counterexample:
  "interrupted_event example_impl \<noteq> INVALID_HANDLE_VALUE
   \<and> issue_reads example_os_query_fails (replicate 16 0) (devices example_impl)
        [interrupted_event example_impl] [] []
      = Issue_wait [5, 2, 4]
          [\<lparr>ar_file = 1, overlapped = 0, hEvent = 2, pending = True\<rparr>,
           \<lparr>ar_file = 3, overlapped = 1, hEvent = 4, pending = True\<rparr>]
          [Call_ReadFile 1 0 16, Call_ReadFile 3 1 16]
   \<and> os_WaitForMultipleObjects example_os_query_fails [5, 2, 4] (wait_milliseconds (- 1))
      = (2, 6)
   \<and> [5, 2, 4] ! unat (2 :: DWORD) = (4 :: HANDLE)
   \<and> readReport example_os_query_fails example_impl (replicate 16 0) (- 1)
      = (Inl (system_error 995 ''GetOverlappedResult''), replicate 16 0,
         [Call_ReadFile 1 0 16, Call_ReadFile 3 1 16,
          Call_WaitForMultipleObjects [5, 2, 4] INFINITE,
          Call_GetOverlappedResult 3 1 False, Call_CancelIoEx 1 0])
   \<and> length (fst (snd (readReport example_os_query_fails example_impl (replicate 16 0) (- 1))))
      = 16"
  by (simp add: readReport_def example_os_query_fails_def example_impl_def example_os_def
      zero_HIDP_CAPS_def INVALID_HANDLE_VALUE_def wait_milliseconds_def destroy_reads_def
      AsyncRead_dtor_def WAIT_OBJECT_0_def WAIT_TIMEOUT_def WAIT_FAILED_def)

section \<open>The failures of a wait in readReport\<close>

text \<open>
  C9. In a call of \<^verbatim>\<open>readReport\<close> that reaches the wait: when the wait itself fails
  (\<^verbatim>\<open>WAIT_FAILED\<close>) the call throws a \<^verbatim>\<open>std::system_error\<close> that carries the value of
  \<^verbatim>\<open>GetLastError ()\<close>, and when the wait returns a value that is neither the interrupt,
  nor the timeout, nor the failure, and that names no read of the vector, the call throws
  the \<^verbatim>\<open>std::runtime_error\<close> for an unexpected return value; it does not return 0.
\<close>

theorem readReport_wait_failures:
  assumes "interrupted_event impl \<noteq> INVALID_HANDLE_VALUE"
    and "issue_reads os report (devices impl) [interrupted_event impl] [] []
         = Issue_wait handles rs tr"
    and "os_WaitForMultipleObjects os handles (wait_milliseconds timeout) = (ret, err)"
  shows "(ret = WAIT_FAILED
           \<longrightarrow> fst (readReport os impl report timeout)
               = Inl (system_error err ''WaitForMultipleObject''))
    \<and> (ret \<noteq> WAIT_OBJECT_0 \<and> ret \<noteq> WAIT_TIMEOUT \<and> ret \<noteq> WAIT_FAILED
         \<and> length rs \<le> unat (ret - WAIT_OBJECT_0 - 1)
           \<longrightarrow> fst (readReport os impl report timeout)
               = Inl (runtime_error ''Unexpected return value from WaitForMultipleObject'')
             \<and> fst (readReport os impl report timeout) \<noteq> Inr 0)"
  using assms WAIT_consts_distinct
  by (simp add: readReport_def)

theorem readReport_wait_failures_witness:
  "interrupted_event example_impl \<noteq> INVALID_HANDLE_VALUE
   \<and> issue_reads (example_os 3) (replicate 16 0) (devices example_impl)
        [interrupted_event example_impl] [] []
      = Issue_wait [5, 2, 4]
          [\<lparr>ar_file = 1, overlapped = 0, hEvent = 2, pending = True\<rparr>,
           \<lparr>ar_file = 3, overlapped = 1, hEvent = 4, pending = True\<rparr>]
          [Call_ReadFile 1 0 16, Call_ReadFile 3 1 16]
   \<and> os_WaitForMultipleObjects (example_os 3) [5, 2, 4] (wait_milliseconds 100) = (3, 6)
   \<and> fst (readReport (example_os 3) example_impl (replicate 16 0) 100)
      = Inl (runtime_error ''Unexpected return value from WaitForMultipleObject'')"
proof -
  have h1: "interrupted_event example_impl \<noteq> INVALID_HANDLE_VALUE"
    by (simp add: example_impl_def INVALID_HANDLE_VALUE_def)
  have h2: "issue_reads (example_os 3) (replicate 16 0) (devices example_impl)
        [interrupted_event example_impl] [] []
      = Issue_wait [5, 2, 4]
          [\<lparr>ar_file = 1, overlapped = 0, hEvent = 2, pending = True\<rparr>,
           \<lparr>ar_file = 3, overlapped = 1, hEvent = 4, pending = True\<rparr>]
          [Call_ReadFile 1 0 16, Call_ReadFile 3 1 16]"
    by (simp add: example_impl_def example_os_def zero_HIDP_CAPS_def)
  have h3: "os_WaitForMultipleObjects (example_os 3) [5, 2, 4] (wait_milliseconds 100)
      = (3, 6)"
    by (simp add: example_os_def)
  have pre: "(3 :: DWORD) \<noteq> WAIT_OBJECT_0 \<and> (3 :: DWORD) \<noteq> WAIT_TIMEOUT
      \<and> (3 :: DWORD) \<noteq> WAIT_FAILED
      \<and> unat ((3 :: DWORD) - WAIT_OBJECT_0 - 1) = 2"
    by (simp add: WAIT_OBJECT_0_def WAIT_TIMEOUT_def WAIT_FAILED_def)
  show ?thesis
    using readReport_wait_failures [OF h1 h2 h3] h1 h2 h3 pre
    by simp
qed

section \<open>Writing a report that no interface owns\<close>

text \<open>
  C4. For a report that is not empty and whose first byte is a report id that the map
  \<^verbatim>\<open>_p->reports\<close> does not hold, \<^verbatim>\<open>writeReport\<close> throws the \<^verbatim>\<open>std::runtime_error\<close>
  "Report ID not found." and makes no call: nothing is written on any handle. The
  function assigns to no member, so the device is as before.
\<close>

theorem writeReport_unknown_report:
  assumes "report \<noteq> []" and "routes impl (hd report) = None"
  shows "writeReport os impl report = (Inl (runtime_error ''Report ID not found.''), [])"
  using assms by (cases report) (simp_all add: writeReport_def)

theorem writeReport_unknown_report_witness:
  "[7, 0, 0] \<noteq> ([] :: uint8_t list) \<and> routes example_impl (hd [7, 0, 0]) = None
   \<and> writeReport (example_os 0) example_impl [7, 0, 0]
      = (Inl (runtime_error ''Report ID not found.''), [])
   \<and> writeReport (example_os 0) example_impl [2, 0, 0]
      = (Inr 3, [Call_WriteFile 3 [2, 0, 0], Call_Log ''Send HID report:''])"
proof -
  have h1: "[7, 0, 0] \<noteq> ([] :: uint8_t list)" by simp
  have h2: "routes example_impl (hd [7, 0, 0]) = None"
    by (simp add: example_impl_def)
  have w: "writeReport (example_os 0) example_impl [2, 0, 0]
      = (Inr 3, [Call_WriteFile 3 [2, 0, 0], Call_Log ''Send HID report:''])"
    by (simp add: writeReport_def example_impl_def example_os_def)
  show ?thesis
    using writeReport_unknown_report [OF h1 h2, of "example_os 0"] h2 w by simp
qed

section \<open>The order of the fields\<close>



section \<open>An interface that cannot be opened\<close>

text \<open>
  C6, as the constructor has it. The claim is that a failure to open a selected interface
  makes the construction fail. The loop instead goes on to the next interface: for a
  selected interface that \<^verbatim>\<open>CreateFile\<close> cannot open, the constructor builds exactly what
  it builds when the enumerator does not return that interface at all, whatever comes
  before and after it. The failure to open is not an error of the construction.
\<close>

theorem unopened_interface_is_skipped:
  assumes "selected parent_inst dev" and "fst (os_CreateFile dev) = INVALID_HANDLE_VALUE"
  shows "RawDevice_path parent_inst (before @ dev # after) interrupt_event
         = RawDevice_path parent_inst (before @ after) interrupt_event"
  using assms(2) by (simp add: RawDevice_path_def enumerate_interfaces_skip_unopened)

theorem unopened_interface_is_skipped_witness:
  "selected 7 example_unopenable
   \<and> fst (os_CreateFile example_unopenable) = INVALID_HANDLE_VALUE
   \<and> RawDevice_path 7 ([] @ example_unopenable # []) (9, 0) = RawDevice_path 7 ([] @ []) (9, 0)
   \<and> RawDevice_path 7 ([] @ []) (9, 0)
      = Inr \<lparr>p = \<lparr>devices = [], routes = Map.empty, interrupted_event = 9\<rparr>,
             vendor_id = None, product_id = None, name = [],
             report_desc = \<lparr>collections = []\<rparr>\<rparr>"
proof -
  have h1: "selected 7 example_unopenable"
    by (simp add: selected_def example_unopenable_def)
  have h2: "fst (os_CreateFile example_unopenable) = INVALID_HANDLE_VALUE"
    by (simp add: example_unopenable_def)
  have e: "RawDevice_path 7 ([] @ []) (9, 0)
      = Inr \<lparr>p = \<lparr>devices = [], routes = Map.empty, interrupted_event = 9\<rparr>,
             vendor_id = None, product_id = None, name = [],
             report_desc = \<lparr>collections = []\<rparr>\<rparr>"
    by (simp add: RawDevice_path_def new_RawDevice_def make_PrivateImpl_def
        INVALID_HANDLE_VALUE_def)
  show ?thesis
    using unopened_interface_is_skipped [OF h1 h2, of "[]" "[]" "(9, 0)"] h1 h2 e by simp
qed

text \<open>
  The claim fails on a device whose only interface cannot be opened: the construction
  succeeds, and the device it builds has no interface, no route, and a vendor id and a
  product id that were never assigned.
\<close>

theorem unopened_interface_counterexample:
  "selected 7 example_unopenable
   \<and> fst (os_CreateFile example_unopenable) = INVALID_HANDLE_VALUE
   \<and> RawDevice_path 7 [example_unopenable] (9, 0)
      = Inr \<lparr>p = \<lparr>devices = [], routes = Map.empty, interrupted_event = 9\<rparr>,
             vendor_id = None, product_id = None, name = [],
             report_desc = \<lparr>collections = []\<rparr>\<rparr>"
  by (simp add: selected_def example_unopenable_def RawDevice_path_def new_RawDevice_def
      make_PrivateImpl_def INVALID_HANDLE_VALUE_def)

section \<open>The copy of a device\<close>

text \<open>
  C8, as the copy constructor has it. Every successful copy has one re-opened interface
  per interface of the original and the same vendor id, product id, name and descriptor,
  but its map of report ids is empty and the capabilities of its interfaces are zero:
  \<^verbatim>\<open>writeReport\<close> on the copy throws "Report ID not found." for every report, also
  for the ids that the original routes.
\<close>

theorem RawDevice_copy_loses_routes:
  assumes "RawDevice_copy os other = Inr d"
  shows "routes (p d) = Map.empty
    \<and> length (devices (p d)) = length (devices (p other))
    \<and> (\<forall>dev \<in> set (devices (p d)). caps dev = zero_HIDP_CAPS)
    \<and> vendor_id d = vendor_id other \<and> product_id d = product_id other
    \<and> name d = name other \<and> report_desc d = report_desc other
    \<and> (\<forall>ios report. report \<noteq> []
          \<longrightarrow> writeReport ios (p d) report
              = (Inl (runtime_error ''Report ID not found.''), []))"
proof -
  obtain devs where devs: "reopen_devices os (devices (p other)) [] = Inr devs"
    using assms by (auto simp: RawDevice_copy_def split: sum.splits)
  obtain ev err where ev: "os_CreateEvent_interrupt os = (ev, err)"
    by (cases "os_CreateEvent_interrupt os")
  have d: "d = \<lparr>p = make_PrivateImpl\<lparr>devices := devs, interrupted_event := ev\<rparr>,
      vendor_id = vendor_id other, product_id = product_id other,
      name = name other, report_desc = report_desc other\<rparr>"
    using assms devs ev by (simp add: RawDevice_copy_def split: if_splits)
  have w: "writeReport ios (p d) report = (Inl (runtime_error ''Report ID not found.''), [])"
    if "report \<noteq> []" for ios report
    using that by (cases report) (simp_all add: d writeReport_def make_PrivateImpl_def)
  show ?thesis
    using reopen_devices_shape [OF devs] w by (simp add: d make_PrivateImpl_def)
qed

theorem RawDevice_copy_loses_routes_witness:
  "RawDevice_copy example_copy_os example_device
     = Inr \<lparr>p = \<lparr>devices = [\<lparr>file' = 11, event = 21, caps = zero_HIDP_CAPS\<rparr>,
                            \<lparr>file' = 13, event = 23, caps = zero_HIDP_CAPS\<rparr>],
                 routes = Map.empty, interrupted_event = 30\<rparr>,
            vendor_id = Some 1133, product_id = Some 50475,
            name = ''Logitech USB Receiver'',
            report_desc = \<lparr>collections = []\<rparr>\<rparr>
   \<and> writeReport (example_os 0) (p example_device) [2, 0, 0]
      = (Inr 3, [Call_WriteFile 3 [2, 0, 0], Call_Log ''Send HID report:''])
   \<and> writeReport (example_os 0)
        \<lparr>devices = [\<lparr>file' = 11, event = 21, caps = zero_HIDP_CAPS\<rparr>,
                    \<lparr>file' = 13, event = 23, caps = zero_HIDP_CAPS\<rparr>],
         routes = Map.empty, interrupted_event = 30\<rparr> [2, 0, 0]
      = (Inl (runtime_error ''Report ID not found.''), [])"
proof -
  have c: "RawDevice_copy example_copy_os example_device
     = Inr \<lparr>p = \<lparr>devices = [\<lparr>file' = 11, event = 21, caps = zero_HIDP_CAPS\<rparr>,
                            \<lparr>file' = 13, event = 23, caps = zero_HIDP_CAPS\<rparr>],
                 routes = Map.empty, interrupted_event = 30\<rparr>,
            vendor_id = Some 1133, product_id = Some 50475,
            name = ''Logitech USB Receiver'',
            report_desc = \<lparr>collections = []\<rparr>\<rparr>"
    by (simp add: RawDevice_copy_def example_copy_os_def example_device_def example_impl_def
        make_PrivateImpl_def INVALID_HANDLE_VALUE_def)
  have w: "writeReport (example_os 0) (p example_device) [2, 0, 0]
      = (Inr 3, [Call_WriteFile 3 [2, 0, 0], Call_Log ''Send HID report:''])"
    by (simp add: writeReport_def example_device_def example_impl_def example_os_def)
  show ?thesis
    using RawDevice_copy_loses_routes [OF c] c w by simp
qed

section \<open>One handle for every report id\<close>

text \<open>
  C5. When the constructor succeeds, every report id that an opened interface declares
  is routed to the handle of that interface, so no id has two handles. When two opened
  interfaces with different handles declare the same numeric report id, and so also when
  they declare the same \<^verbatim>\<open>ReportID\<close>, the construction fails; and when no call on an
  opened interface fails, it fails with the \<^verbatim>\<open>std::runtime_error\<close>
  "Same Report ID on different handle.", the invariant violation of the specification.
\<close>

theorem report_id_routed_to_one_handle:
  "(RawDevice_path parent_inst enumerated interrupt_event = Inr d
      \<longrightarrow> (\<forall>dev \<in> set enumerated. opened parent_inst dev
             \<longrightarrow> (\<forall>k \<in> set (declared dev).
                    routes (p d) (ucast (id' k)) = Some (fst (os_CreateFile dev)))))
   \<and> (dev1 \<in> set enumerated \<and> dev2 \<in> set enumerated
        \<and> opened parent_inst dev1 \<and> opened parent_inst dev2
        \<and> k1 \<in> set (declared dev1) \<and> k2 \<in> set (declared dev2) \<and> id' k1 = id' k2
        \<and> fst (os_CreateFile dev1) \<noteq> fst (os_CreateFile dev2)
      \<longrightarrow> isl (RawDevice_path parent_inst enumerated interrupt_event)
        \<and> ((\<forall>dev \<in> set enumerated. opened parent_inst dev \<longrightarrow> queries_succeed dev)
             \<longrightarrow> RawDevice_path parent_inst enumerated interrupt_event
                 = Inl (runtime_error ''Same Report ID on different handle.'')))"
proof -
  have routed: "\<forall>dev \<in> set enumerated. opened parent_inst dev
      \<longrightarrow> (\<forall>k \<in> set (declared dev).
             routes (p d0) (ucast (id' k)) = Some (fst (os_CreateFile dev)))"
    if "enumerate_interfaces parent_inst enumerated True new_RawDevice = Inr d0" for d0
    using enumerate_interfaces_Inr [OF that] by blast
  have part1: "\<forall>dev \<in> set enumerated. opened parent_inst dev
      \<longrightarrow> (\<forall>k \<in> set (declared dev).
             routes (p d) (ucast (id' k)) = Some (fst (os_CreateFile dev)))"
    if r: "RawDevice_path parent_inst enumerated interrupt_event = Inr d"
  proof -
    obtain d0 where d0: "enumerate_interfaces parent_inst enumerated True new_RawDevice = Inr d0"
      using r by (auto simp: RawDevice_path_def split: sum.splits)
    have "routes (p d) = routes (p d0)"
      using r d0 by (auto simp: RawDevice_path_def split: prod.splits if_splits)
    then show ?thesis using routed [OF d0] by simp
  qed
  have part2: "isl (RawDevice_path parent_inst enumerated interrupt_event)
      \<and> ((\<forall>dev \<in> set enumerated. opened parent_inst dev \<longrightarrow> queries_succeed dev)
           \<longrightarrow> RawDevice_path parent_inst enumerated interrupt_event
               = Inl (runtime_error ''Same Report ID on different handle.''))"
    if c: "dev1 \<in> set enumerated" "dev2 \<in> set enumerated"
      "opened parent_inst dev1" "opened parent_inst dev2"
      "k1 \<in> set (declared dev1)" "k2 \<in> set (declared dev2)" "id' k1 = id' k2"
      "fst (os_CreateFile dev1) \<noteq> fst (os_CreateFile dev2)"
  proof -
    have no: "enumerate_interfaces parent_inst enumerated True new_RawDevice \<noteq> Inr d0" for d0
    proof
      assume d0: "enumerate_interfaces parent_inst enumerated True new_RawDevice = Inr d0"
      have "routes (p d0) (ucast (id' k1)) = Some (fst (os_CreateFile dev1))"
        using routed [OF d0] c(1,3,5) by blast
      moreover have "routes (p d0) (ucast (id' k2)) = Some (fst (os_CreateFile dev2))"
        using routed [OF d0] c(2,4,6) by blast
      ultimately show False using c(7,8) by simp
    qed
    then obtain e where e: "enumerate_interfaces parent_inst enumerated True new_RawDevice = Inl e"
      by (cases "enumerate_interfaces parent_inst enumerated True new_RawDevice") auto
    have r: "RawDevice_path parent_inst enumerated interrupt_event = Inl e"
      using e by (simp add: RawDevice_path_def)
    have "e = runtime_error ''Same Report ID on different handle.''"
      if "\<forall>dev \<in> set enumerated. opened parent_inst dev \<longrightarrow> queries_succeed dev"
      using enumerate_interfaces_Inl [OF that e] .
    then show ?thesis using r by simp
  qed
  show ?thesis using part1 part2 by blast
qed

theorem report_id_routed_to_one_handle_witness:
  "RawDevice_path 7 [example_interface 1 1, example_interface 3 1] (9, 0)
     = Inl (runtime_error ''Same Report ID on different handle.'')
   \<and> (\<exists>d. RawDevice_path 7 [example_interface 1 1, example_interface 3 2] (9, 0) = Inr d
          \<and> routes (p d) 1 = Some 1 \<and> routes (p d) 2 = Some 3)"
proof -
  have inv: "(1 :: HANDLE) \<noteq> INVALID_HANDLE_VALUE" "(2 :: HANDLE) \<noteq> INVALID_HANDLE_VALUE"
    "(3 :: HANDLE) \<noteq> INVALID_HANDLE_VALUE" "(4 :: HANDLE) \<noteq> INVALID_HANDLE_VALUE"
    "(9 :: HANDLE) \<noteq> INVALID_HANDLE_VALUE"
    by (simp_all add: INVALID_HANDLE_VALUE_def)
  have bad: "RawDevice_path 7 [example_interface 1 1, example_interface 3 1] (9, 0)
     = Inl (runtime_error ''Same Report ID on different handle.'')"
    using report_id_routed_to_one_handle [of 7 "[example_interface 1 1, example_interface 3 1]"
        "(9, 0)" new_RawDevice "example_interface 1 1" "example_interface 3 1"
        "\<lparr>type' = Input, id' = 1\<rparr>" "\<lparr>type' = Input, id' = 1\<rparr>"]
    by (simp add: example_interface_facts inv)
  obtain d where d: "RawDevice_path 7 [example_interface 1 1, example_interface 3 2] (9, 0)
      = Inr d"
    by (simp add: RawDevice_path_def add_interface_def read_attributes_def
        example_interface_def report_type_counts_def zero_HIDP_CAPS_def
        query_caps_def fill_caps_def report_key_def example_cap_def zero_HIDP_CAP_def
        add_field_def new_RawDevice_def make_PrivateImpl_def inv)
  have "routes (p d) (ucast (id' \<lparr>type' = Input, id' = 1\<rparr>)) = Some 1
      \<and> routes (p d) (ucast (id' \<lparr>type' = Input, id' = 2\<rparr>)) = Some 3"
    using report_id_routed_to_one_handle [of 7 "[example_interface 1 1, example_interface 3 2]"
        "(9, 0)" d] d
    by (simp add: example_interface_facts inv)
  then show ?thesis using bad d by simp
qed

section \<open>The reads that readReport starts\<close>

text \<open>
  C2, as \<^verbatim>\<open>readReport\<close> has it. The claim is that a read is started on exactly the
  interfaces whose input reports fit the buffer. The loop leaves at the first read that
  is not left pending, so the reads are started on the fitting interfaces, in order, up
  to and including the first one whose read returns at once or fails: never on an
  interface whose reports do not fit, and on all the fitting ones when every read is left
  pending. When a started read returns at once, the call does not wait: it returns the
  number of bytes read and resizes the buffer to that number, the buffer being then the
  bytes read.
\<close>

theorem readReport_reads_issued:
  assumes "interrupted_event impl \<noteq> INVALID_HANDLE_VALUE"
  shows "read_files (snd (snd (readReport os impl report timeout)))
      = map file' (attempted os report (devices impl))
    \<and> prefix (attempted os report (devices impl)) (filter (fits report) (devices impl))
    \<and> ((\<forall>dev \<in> set (filter (fits report) (devices impl)).
           os_ReadFile os (file' dev) = ReadFile_FALSE ERROR_IO_PENDING)
         \<longrightarrow> read_files (snd (snd (readReport os impl report timeout)))
             = map file' (filter (fits report) (devices impl)))
    \<and> (\<forall>dev data. dev \<in> set (attempted os report (devices impl))
           \<and> os_ReadFile os (file' dev) = ReadFile_TRUE data
         \<longrightarrow> waits (snd (snd (readReport os impl report timeout))) = []
           \<and> fst (readReport os impl report timeout)
               = Inr (sint (word_of_nat (length data) :: DWORD))
           \<and> length (fst (snd (readReport os impl report timeout)))
               = unat (word_of_nat (length data) :: DWORD)
           \<and> (length data < 2 ^ 31
                \<longrightarrow> fst (readReport os impl report timeout) = Inr (int (length data))
                  \<and> fst (snd (readReport os impl report timeout)) = data))"
proof -
  let ?A = "attempted os report (devices impl)"
  let ?T = "snd (snd (readReport os impl report timeout))"
  obtain mid rs' where T: "?T = map (read_call report) (enumerate 0 ?A)
        @ mid @ destroy_reads os rs'"
    and mid: "read_files mid = []"
    using readReport_calls [OF assms, of os report timeout] by blast
  have files: "read_files ?T = map file' ?A"
    by (simp add: T mid read_files_read_calls)
  have pre: "prefix ?A (filter (fits report) (devices impl))"
    by (rule attempted_prefix)
  have allp: "read_files ?T = map file' (filter (fits report) (devices impl))"
    if "\<forall>dev \<in> set (filter (fits report) (devices impl)).
          os_ReadFile os (file' dev) = ReadFile_FALSE ERROR_IO_PENDING"
    using attempted_all_pending [OF that] files by simp
  have sync: "waits ?T = []
      \<and> fst (readReport os impl report timeout)
          = Inr (sint (word_of_nat (length data) :: DWORD))
      \<and> length (fst (snd (readReport os impl report timeout)))
          = unat (word_of_nat (length data) :: DWORD)
      \<and> (length data < 2 ^ 31
           \<longrightarrow> fst (readReport os impl report timeout) = Inr (int (length data))
             \<and> fst (snd (readReport os impl report timeout)) = data)"
    if sy: "dev \<in> set ?A" "os_ReadFile os (file' dev) = ReadFile_TRUE data" for dev data
  proof -
    obtain rs tr where X: "issue_reads os report (devices impl) [interrupted_event impl] [] []
        = Issue_report_read data rs tr"
      using attempted_sync [OF sy] by blast
    have tr: "tr = map (read_call report) (enumerate 0 ?A)"
      using issue_reads_shape [of os report "devices impl" "[interrupted_event impl]" "[]" "[]"]
        X by simp
    have rr: "readReport os impl report timeout = report_read os data report rs tr"
      using X assms by (simp add: readReport_def)
    have "waits ?T = []"
      by (simp add: rr report_read_def tr)
    then show ?thesis
      unfolding rr using report_read_result [of os data report rs tr] by blast
  qed
  show ?thesis using files pre allp sync by blast
qed

theorem readReport_reads_issued_witness:
  "interrupted_event example_impl \<noteq> INVALID_HANDLE_VALUE
   \<and> attempted example_os_sync (replicate 16 0) (devices example_impl)
      = [hd (devices example_impl)]
   \<and> os_ReadFile example_os_sync (file' (hd (devices example_impl))) = ReadFile_TRUE [1, 9]
   \<and> read_files (snd (snd (readReport example_os_sync example_impl (replicate 16 0) 100)))
      = [1]
   \<and> waits (snd (snd (readReport example_os_sync example_impl (replicate 16 0) 100))) = []
   \<and> fst (readReport example_os_sync example_impl (replicate 16 0) 100) = Inr 2
   \<and> fst (snd (readReport example_os_sync example_impl (replicate 16 0) 100)) = [1, 9]
   \<and> read_files (snd (snd
        (readReport (example_os WAIT_TIMEOUT) example_impl (replicate 16 0) 100)))
      = [1, 3]"
proof -
  have h: "interrupted_event example_impl \<noteq> INVALID_HANDLE_VALUE"
    by (simp add: example_impl_def INVALID_HANDLE_VALUE_def)
  have a: "attempted example_os_sync (replicate 16 0) (devices example_impl)
      = [hd (devices example_impl)]"
    by (simp add: example_impl_def example_os_sync_def example_os_def fits_def
        zero_HIDP_CAPS_def)
  have r: "os_ReadFile example_os_sync (file' (hd (devices example_impl)))
      = ReadFile_TRUE [1, 9]"
    by (simp add: example_impl_def example_os_sync_def example_os_def)
  have f: "file' (hd (devices example_impl)) = 1"
    by (simp add: example_impl_def)
  have pend: "\<forall>dev \<in> set (filter (fits (replicate 16 0)) (devices example_impl)).
      os_ReadFile (example_os WAIT_TIMEOUT) (file' dev) = ReadFile_FALSE ERROR_IO_PENDING"
    by (simp add: example_os_def)
  note sync = readReport_reads_issued [OF h, of example_os_sync "replicate 16 0" 100]
  note wait = readReport_reads_issued [OF h, of "example_os WAIT_TIMEOUT" "replicate 16 0" 100]
  have s1: "read_files (snd (snd (readReport example_os_sync example_impl (replicate 16 0) 100)))
      = [1]"
    using sync a f by simp
  have s2: "waits (snd (snd (readReport example_os_sync example_impl (replicate 16 0) 100))) = []
      \<and> fst (readReport example_os_sync example_impl (replicate 16 0) 100) = Inr 2
      \<and> fst (snd (readReport example_os_sync example_impl (replicate 16 0) 100)) = [1, 9]"
    using sync a r by simp
  have "read_files (snd (snd
        (readReport (example_os WAIT_TIMEOUT) example_impl (replicate 16 0) 100)))
      = map file' (filter (fits (replicate 16 0)) (devices example_impl))"
    using wait pend by blast
  then have s3: "read_files (snd (snd
        (readReport (example_os WAIT_TIMEOUT) example_impl (replicate 16 0) 100))) = [1, 3]"
    by (simp add: example_fits)
  show ?thesis using h a r s1 s2 s3 by blast
qed

text \<open>
  The claim fails on the example device with a buffer of 16 bytes, when the read on
  interface A returns at once: both interfaces fit, and only A is read.
\<close>

theorem readReport_reads_issued_counterexample:
  "map file' (filter (fits (replicate 16 0)) (devices example_impl)) = [1, 3]
   \<and> readReport example_os_sync example_impl (replicate 16 0) 100
      = (Inr 2, [1, 9], [Call_ReadFile 1 0 16, Call_Log ''Recv HID report:''])
   \<and> read_files (snd (snd (readReport example_os_sync example_impl (replicate 16 0) 100)))
      = [1]"
  by (simp add: example_sync_calls example_fits)

section \<open>The reads that readReport cancels\<close>

text \<open>
  C3, as \<^verbatim>\<open>readReport\<close> has it. The claim is that every read left outstanding is
  cancelled and that the call returns only after each cancellation has been observed.
  On every path out of the call, the reads for which \<^verbatim>\<open>CancelIoEx\<close> is called are
  exactly those that were started and left pending and that the call has not finished;
  the cancellations are the last calls but for the log of a failed one, and no wait and
  no \<^verbatim>\<open>GetOverlappedResult\<close> comes after the first of them: the call asks for the
  cancellation and returns without observing it.
\<close>

theorem readReport_cancels_pending_reads:
  "set (cancelled (snd (snd (readReport os impl report timeout))))
     = set (started_pending os (snd (snd (readReport os impl report timeout))))
       - set (finished (snd (snd (readReport os impl report timeout))))
   \<and> nothing_observed_after_cancel (snd (snd (readReport os impl report timeout)))"
proof (cases "interrupted_event impl = INVALID_HANDLE_VALUE")
  case True
  then show ?thesis by (simp add: readReport_def)
next
  case False
  let ?A = "attempted os report (devices impl)"
  let ?R = "map (read_of os) (enumerate 0 ?A)"
  let ?calls = "map (read_call report) (enumerate 0 ?A)"
  let ?T = "snd (snd (readReport os impl report timeout))"
  obtain mid rs' where T: "?T = ?calls @ mid @ destroy_reads os rs'"
    and mid: "cancelled mid = []" "started_pending os mid = []"
    and fin: "finished mid = [] \<and> rs' = ?R
        \<or> (\<exists>i < length ?A. finished mid = [call_key (?R ! i)]
              \<and> rs' = ?R[i := (?R ! i)\<lparr>pending := False\<rparr>])"
    using readReport_calls [OF False, of os report timeout] by blast
  have c: "cancelled ?T = map call_key (filter pending rs')"
    by (simp add: T mid cancelled_destroy_reads)
  have s: "started_pending os ?T = map call_key (filter pending ?R)"
    by (simp add: T mid started_pending_read_calls)
  have f: "finished ?T = finished mid"
    by (simp add: T)
  have "cancelled (?calls @ mid) = []"
    by (simp add: mid)
  then have quiet: "nothing_observed_after_cancel ?T"
    using nothing_observed_before_destroy [of "?calls @ mid" os rs'] by (simp add: T)
  have sets: "set (cancelled ?T) = set (started_pending os ?T) - set (finished ?T)"
    using fin
  proof
    assume "finished mid = [] \<and> rs' = ?R"
    then show ?thesis by (simp add: c s f)
  next
    assume "\<exists>i < length ?A. finished mid = [call_key (?R ! i)]
        \<and> rs' = ?R[i := (?R ! i)\<lparr>pending := False\<rparr>]"
    then obtain i where i: "i < length ?A" "finished mid = [call_key (?R ! i)]"
      "rs' = ?R[i := (?R ! i)\<lparr>pending := False\<rparr>]"
      by blast
    have ov: "\<forall>j < length ?R. overlapped (?R ! j) = j"
      using overlapped_read_of [of _ ?A os 0] by simp
    have "set (map call_key (filter pending rs'))
        = set (map call_key (filter pending ?R)) - {call_key (?R ! i)}"
      unfolding i(3) using ov i(1) by (intro cancelled_after_finish) simp_all
    then show ?thesis by (simp add: c s f i(2))
  qed
  show ?thesis using sets quiet by blast
qed

theorem readReport_cancels_pending_reads_witness:
  "set (cancelled (snd (snd
      (readReport (example_os WAIT_TIMEOUT) example_impl (replicate 16 0) 100))))
     = set (started_pending (example_os WAIT_TIMEOUT) (snd (snd
         (readReport (example_os WAIT_TIMEOUT) example_impl (replicate 16 0) 100))))
       - set (finished (snd (snd
         (readReport (example_os WAIT_TIMEOUT) example_impl (replicate 16 0) 100))))
   \<and> cancelled (snd (snd
        (readReport (example_os WAIT_TIMEOUT) example_impl (replicate 16 0) 100)))
      = [(1, 0), (3, 1)]
   \<and> nothing_observed_after_cancel (snd (snd
        (readReport (example_os WAIT_TIMEOUT) example_impl (replicate 16 0) 100)))"
  using readReport_cancels_pending_reads
    [of "example_os WAIT_TIMEOUT" example_impl "replicate 16 0" 100]
  by (simp add: example_timeout_calls)

text \<open>
  The claim fails on the example device when the wait times out: both reads are
  cancelled and the call returns 0 with no call after the two \<^verbatim>\<open>CancelIoEx\<close>.
\<close>

theorem readReport_cancellation_not_observed:
  "readReport (example_os WAIT_TIMEOUT) example_impl (replicate 16 0) 100
   = (Inr 0, replicate 16 0,
      [Call_ReadFile 1 0 16, Call_ReadFile 3 1 16,
       Call_WaitForMultipleObjects [5, 2, 4] 100,
       Call_CancelIoEx 1 0, Call_CancelIoEx 3 1])
   \<and> \<not> cancellations_observed (snd (snd
        (readReport (example_os WAIT_TIMEOUT) example_impl (replicate 16 0) 100)))"
  by (simp add: example_timeout_calls)

end
